theory Spec2Isabelle
  imports Complex_Main "HOL-Library.Sublist" "HOL-Library.Word"
begin

section \<open>JavaScript values\<close>

text \<open>
  The segmentation service answers with parsed JSON of no fixed shape, and the code
  inspects it with \<^verbatim>\<open>typeof\<close>, \<^verbatim>\<open>Array.isArray\<close>, truthiness tests and property
  reads. The values are modelled as a tagged union. An object is the list of its own
  enumerable properties in the order \<^verbatim>\<open>Object.keys\<close> lists them; a property read takes
  the first binding of the key. Numbers are exact reals: IEEE rounding and \<^verbatim>\<open>NaN\<close> are
  not modelled.
\<close>

datatype jsval =
    JUndefined
  | JNull
  | JBool bool
  | JNum real
  | JStr string
  | JArr "jsval list"
  | JObj "(string \<times> jsval) list"

text \<open>Truthiness, as \<^verbatim>\<open>if (x)\<close> and \<^verbatim>\<open>!x\<close> decide it.\<close>

fun truthy :: "jsval \<Rightarrow> bool" where
  "truthy JUndefined = False"
| "truthy JNull = False"
| "truthy (JBool b) = b"
| "truthy (JNum x) = (x \<noteq> 0)"
| "truthy (JStr s) = (s \<noteq> [])"
| "truthy (JArr xs) = True"
| "truthy (JObj kvs) = True"

text \<open>
  The property read \<^verbatim>\<open>out[k]\<close> on a value that is neither \<^verbatim>\<open>null\<close> nor
  \<^verbatim>\<open>undefined\<close>, for the property names this program reads (\<^verbatim>\<open>status\<close>,
  \<^verbatim>\<open>output\<close>, \<^verbatim>\<open>urls\<close>, \<^verbatim>\<open>get\<close> and the five mask keys): none of them exists on a
  string, number, boolean or array, so only an object can answer with something other
  than \<^verbatim>\<open>undefined\<close>.
\<close>

fun get :: "jsval \<Rightarrow> string \<Rightarrow> jsval" where
  "get (JObj kvs) k = (case map_of kvs k of Some v \<Rightarrow> v | None \<Rightarrow> JUndefined)"
| "get _ k = JUndefined"

fun Object_keys :: "jsval \<Rightarrow> string list" where
  "Object_keys (JObj kvs) = map fst kvs"
| "Object_keys _ = []"

text \<open>\<^verbatim>\<open>a && b\<close>: the left operand when it is falsy, the right one otherwise.\<close>

definition js_and :: "jsval \<Rightarrow> jsval \<Rightarrow> jsval" where
  "js_and a b = (if truthy a then b else a)"

section \<open>The mask locator\<close>

definition startsWith :: "string \<Rightarrow> string \<Rightarrow> bool" where
  "startsWith s p = prefix p s"

text \<open>\<^verbatim>\<open>out.split('?')[0]\<close>: the text before the first question mark.\<close>

definition before_query :: "string \<Rightarrow> string" where
  "before_query s = takeWhile (\<lambda>c. c \<noteq> CHR ''?'') s"

text \<open>\<^verbatim>\<open>s.split('.').pop()\<close>: the text after the last dot, all of \<open>s\<close> when it has none.\<close>

definition after_last_dot :: "string \<Rightarrow> string" where
  "after_last_dot s = rev (takeWhile (\<lambda>c. c \<noteq> CHR ''.'') (rev s))"

definition image_exts :: "string list" where
  "image_exts = [''png'', ''jpg'', ''jpeg'', ''webp'']"

text \<open>The test of lines 75 to 78 on a string: both conditions that lead to \<^verbatim>\<open>return out\<close>.\<close>

definition accepts :: "string \<Rightarrow> bool" where
  "accepts out \<longleftrightarrow>
     (startsWith out ''http'' \<or> startsWith out ''data:'') \<and>
     (let ext = after_last_dot (before_query out)
      in ext \<in> set image_exts \<or> startsWith out ''data:'')"

definition mask_keys :: "string list" where
  "mask_keys = [''mask'', ''masks'', ''segmentation'', ''segmented_image'', ''overlay'']"

text \<open>
  A loop that returns the first truthy result of its body: the results of the bodies in
  iteration order, and the first that is not \<^verbatim>\<open>null\<close>.
\<close>

fun first_found :: "'a option list \<Rightarrow> 'a option" where
  "first_found [] = None"
| "first_found (None # rs) = first_found rs"
| "first_found (Some v # rs) = Some v"

lemma get_size: "size (get (JObj kvs) k) < size (JObj kvs)"
proof (induction kvs)
  case Nil
  show ?case by simp
next
  case (Cons kv kvs)
  obtain k' v where kv: "kv = (k', v)" by (cases kv)
  from Cons show ?case by (simp add: kv split: option.splits)
qed

text \<open>
  \<^verbatim>\<open>findMaskUrl\<close> (replicate-seg.js, lines 73 to 101). The result \<^verbatim>\<open>null\<close> is
  \<open>None\<close>. A string that is not accepted, and any other scalar, falls through every test
  to the final \<^verbatim>\<open>return null\<close>. An array that gave nothing in the \<^verbatim>\<open>for ... of\<close> loop
  also passes \<^verbatim>\<open>typeof out === 'object'\<close>: none of the five keys is defined on it, and
  \<^verbatim>\<open>Object.keys\<close> lists its indices, so its elements are searched a second time.
\<close>

function (sequential) findMaskUrl :: "jsval \<Rightarrow> string option" where
  "findMaskUrl (JStr s) = (if s \<noteq> [] \<and> accepts s then Some s else None)"
| "findMaskUrl (JArr xs) =
     (case first_found (map findMaskUrl xs) of
        Some v \<Rightarrow> Some v
      | None \<Rightarrow> first_found (map findMaskUrl xs))"
| "findMaskUrl (JObj kvs) =
     first_found
       (map (\<lambda>k. if truthy (get (JObj kvs) k) then findMaskUrl (get (JObj kvs) k) else None)
            mask_keys
        @ map (\<lambda>key. findMaskUrl (get (JObj kvs) key)) (Object_keys (JObj kvs)))"
| "findMaskUrl _ = None"
  by pat_completeness auto
termination
proof (relation "measure size")
  show "wf (measure size)" by simp
next
  fix xs :: "jsval list" and x
  assume "x \<in> set xs"
  then show "(x, JArr xs) \<in> measure size"
    by (induction xs) auto
next
  fix xs :: "jsval list" and x
  assume "x \<in> set xs"
  then show "(x, JArr xs) \<in> measure size"
    by (induction xs) auto
next
  fix kvs :: "(string \<times> jsval) list" and k
  show "(get (JObj kvs) k, JObj kvs) \<in> measure size"
    using get_size [of kvs k] by simp
next
  fix kvs :: "(string \<times> jsval) list" and k
  show "(get (JObj kvs) k, JObj kvs) \<in> measure size"
    using get_size [of kvs k] by simp
qed

section \<open>The segmentation invoker\<close>

text \<open>
  What \<^verbatim>\<open>runModelVersion\<close> can throw: its own \<^verbatim>\<open>Error\<close>s with their message, the
  error of a failed prediction (whose message carries the serialised prediction), a
  rejected HTTP call, and the \<^verbatim>\<open>TypeError\<close> of reading a property of \<^verbatim>\<open>null\<close> or
  \<^verbatim>\<open>undefined\<close>.
\<close>

datatype error =
    Error string
  | PredictionFailed jsval
  | HttpError string
  | TypeError

text \<open>
  The environment: the two variables read at module load (\<open>None\<close> when unset), and the
  HTTP client. \<open>http_post url body headers\<close> is \<^verbatim>\<open>(await axios.post(...)).data\<close> or
  the rejection; \<open>http_get url headers n\<close> is the same for the \<open>n\<close>-th \<^verbatim>\<open>axios.get\<close>
  of the call (counted from 0), since the service's answer changes over time.
\<close>

record env =
  REPLICATE_API_TOKEN :: "string option"
  REPLICATE_MODEL_VERSION :: "string option"
  http_post :: "string \<Rightarrow> jsval \<Rightarrow> (string \<times> string) list \<Rightarrow> error + jsval"
  http_get :: "jsval \<Rightarrow> (string \<times> string) list \<Rightarrow> nat \<Rightarrow> error + jsval"

text \<open>A property read that is not guarded by a truthiness test, as \<^verbatim>\<open>prediction.status\<close>.\<close>

fun member :: "jsval \<Rightarrow> string \<Rightarrow> error + jsval" where
  "member JUndefined k = Inl TypeError"
| "member JNull k = Inl TypeError"
| "member v k = Inr (get v k)"

definition pending :: "jsval \<Rightarrow> bool" where
  "pending status \<longleftrightarrow> status = JStr ''starting'' \<or> status = JStr ''processing''"

text \<open>
  The poll loop (lines 50 to 56). The state is the current prediction, \<open>tries\<close>, and the
  milliseconds asked of \<^verbatim>\<open>setTimeout\<close> so far; the loop returns all three.
\<close>

function poll_loop ::
  "env \<Rightarrow> jsval \<Rightarrow> (string \<times> string) list \<Rightarrow> jsval \<Rightarrow> nat \<Rightarrow> nat \<Rightarrow> error + (jsval \<times> nat \<times> nat)"
where
  "poll_loop e predictionUrl headers prediction tries waited =
     (case member prediction ''status'' of
        Inl err \<Rightarrow> Inl err
      | Inr status \<Rightarrow>
          if pending status \<and> tries < 60 then
            (case http_get e predictionUrl headers tries of
               Inl err \<Rightarrow> Inl err
             | Inr data \<Rightarrow> poll_loop e predictionUrl headers data (tries + 1) (waited + 1000))
          else Inr (prediction, tries, waited))"
  by pat_completeness auto
termination
  by (relation "measure (\<lambda>(e, u, h, p, tries, w). 60 - tries)") auto

record seg_result =
  prediction :: jsval
  maskUrl :: "string option"

definition string_truthy :: "string option \<Rightarrow> bool" where
  "string_truthy v = (case v of None \<Rightarrow> False | Some s \<Rightarrow> s \<noteq> [])"

text \<open>The request of lines 28 to 40, and the poll location of line 45.\<close>

definition predictions_url :: string where
  "predictions_url = ''https://api.replicate.com/v1/predictions''"

definition request_body :: "string \<Rightarrow> string \<Rightarrow> jsval" where
  "request_body version dataUrl =
     JObj [(''version'', JStr version), (''input'', JObj [(''image'', JStr dataUrl)])]"

definition request_headers :: "string \<Rightarrow> (string \<times> string) list" where
  "request_headers token =
     [(''Content-Type'', ''application/json''), (''Authorization'', ''Token '' @ token)]"

definition predictionUrl :: "jsval \<Rightarrow> jsval" where
  "predictionUrl data =
     js_and (js_and data (get data ''urls'')) (get (get data ''urls'') ''get'')"

text \<open>
  \<^verbatim>\<open>runModelVersion\<close> (lines 21 to 110). After the loop only the status \<^verbatim>\<open>failed\<close>
  throws; every other prediction, whatever its status, goes on to the mask search and is
  returned.
\<close>

definition runModelVersion :: "env \<Rightarrow> string \<Rightarrow> error + seg_result" where
  "runModelVersion e dataUrl =
     (if \<not> string_truthy (REPLICATE_API_TOKEN e)
        then Inl (Error ''Missing REPLICATE_API_TOKEN in environment'')
      else if \<not> string_truthy (REPLICATE_MODEL_VERSION e)
        then Inl (Error ''Missing REPLICATE_MODEL_VERSION in environment'')
      else
        let body = request_body (the (REPLICATE_MODEL_VERSION e)) dataUrl;
            headers = request_headers (the (REPLICATE_API_TOKEN e))
        in case http_post e predictions_url body headers of
             Inl err \<Rightarrow> Inl err
           | Inr data \<Rightarrow>
               (case (if truthy (predictionUrl data)
                        then poll_loop e (predictionUrl data) headers data 0 0
                        else Inr (data, 0, 0)) of
                  Inl err \<Rightarrow> Inl err
                | Inr (pred, tries, waited) \<Rightarrow>
                    (case member pred ''status'' of
                       Inl err \<Rightarrow> Inl err
                     | Inr status \<Rightarrow>
                         if status = JStr ''failed'' then Inl (PredictionFailed pred)
                         else (case member pred ''output'' of
                                 Inl err \<Rightarrow> Inl err
                               | Inr output \<Rightarrow>
                                   Inr \<lparr>prediction = pred,
                                        maskUrl = findMaskUrl output\<rparr>))))"

text \<open>
  A segmentation service that accepts the request, hands out a poll location and then
  answers every poll with the status \<^verbatim>\<open>processing\<close>.
\<close>

definition never_ready :: env where
  "never_ready =
     \<lparr>REPLICATE_API_TOKEN = Some ''r8_token'',
      REPLICATE_MODEL_VERSION = Some ''yolov8-seg'',
      http_post = (\<lambda>url body headers.
         Inr (JObj [(''status'', JStr ''starting''),
                    (''urls'', JObj [(''get'', JStr ''https://api.replicate.com/v1/predictions/p1'')])])),
      http_get = (\<lambda>url headers n. Inr (JObj [(''status'', JStr ''processing'')]))\<rparr>"

text \<open>A prediction whose status can be read and is in the pending set.\<close>

definition is_pending :: "jsval \<Rightarrow> bool" where
  "is_pending p \<longleftrightarrow>
     (case member p ''status'' of Inl err \<Rightarrow> False | Inr status \<Rightarrow> pending status)"

section \<open>The mask locator as the specification words it\<close>

text \<open>Every string that occurs as a value anywhere in a structure.\<close>

fun strings_of :: "jsval \<Rightarrow> string set" where
  "strings_of (JStr s) = {s}"
| "strings_of (JArr xs) = (\<Union>x \<in> set xs. strings_of x)"
| "strings_of (JObj kvs) = (\<Union>kv \<in> set kvs. strings_of (snd kv))"
| "strings_of _ = {}"

text \<open>
  The order in which a depth-first search with the priority keys meets the strings of a
  structure: in a mapping the values under \<^verbatim>\<open>mask\<close>, \<^verbatim>\<open>masks\<close>,
  \<^verbatim>\<open>segmentation\<close>, \<^verbatim>\<open>segmented_image\<close>, \<^verbatim>\<open>overlay\<close> in that order, then the
  values under the remaining keys; in a sequence the elements in their order.
\<close>

function (sequential) dfs_order :: "jsval \<Rightarrow> string list" where
  "dfs_order (JStr s) = [s]"
| "dfs_order (JArr xs) = concat (map dfs_order xs)"
| "dfs_order (JObj kvs) =
     concat (map (\<lambda>k. dfs_order (get (JObj kvs) k))
               (mask_keys @ filter (\<lambda>k. k \<notin> set mask_keys) (Object_keys (JObj kvs))))"
| "dfs_order _ = []"
  by pat_completeness auto
termination
proof (relation "measure size")
  show "wf (measure size)" by simp
next
  fix xs :: "jsval list" and x
  assume "x \<in> set xs"
  then show "(x, JArr xs) \<in> measure size"
    by (induction xs) auto
next
  fix kvs :: "(string \<times> jsval) list" and k
  show "(get (JObj kvs) k, JObj kvs) \<in> measure size"
    using get_size [of kvs k] by simp
qed

text \<open>The specification's locator: the first accepted string in that order.\<close>

definition locate :: "jsval \<Rightarrow> string option" where
  "locate out = find accepts (dfs_order out)"

text \<open>
  The acceptance rule in the specification's words: a scheme prefix, and either inline
  data or an allowed extension on the trailing path segment of the query-stripped string.
\<close>

definition trailing_segment :: "string \<Rightarrow> string" where
  "trailing_segment s = rev (takeWhile (\<lambda>c. c \<noteq> CHR ''/'') (rev s))"

definition extension :: "string \<Rightarrow> string option" where
  "extension seg = (if CHR ''.'' \<in> set seg then Some (after_last_dot seg) else None)"

definition mask_rule :: "string \<Rightarrow> bool" where
  "mask_rule s \<longleftrightarrow>
     (prefix ''http'' s \<or> prefix ''https'' s \<or> prefix ''data:'' s) \<and>
     (prefix ''data:'' s \<or>
      extension (trailing_segment (before_query s)) \<in> Some ` set image_exts)"

section \<open>The pixel fraction meter\<close>

text \<open>
  \<^verbatim>\<open>computeMaskPixelFraction\<close> (app.js, lines 86 to 100) from the point where the mask
  has been drawn: \<open>d\<close> is the \<^verbatim>\<open>Uint8ClampedArray\<close> of \<^verbatim>\<open>getImageData\<close>, four bytes
  per pixel in the order red, green, blue, alpha. A read past the end is \<^verbatim>\<open>undefined\<close>
  (\<open>None\<close>); \<^verbatim>\<open>undefined > 10\<close> is false, and a sum with \<^verbatim>\<open>undefined\<close> is \<^verbatim>\<open>NaN\<close>,
  which is not above 10 either.
\<close>

definition byte_at :: "8 word list \<Rightarrow> nat \<Rightarrow> nat option" where
  "byte_at d i = (if i < length d then Some (unat (d ! i)) else None)"

definition exceeds10 :: "nat option \<Rightarrow> bool" where
  "exceeds10 v = (case v of None \<Rightarrow> False | Some n \<Rightarrow> n > 10)"

definition sum3 :: "nat option \<Rightarrow> nat option \<Rightarrow> nat option \<Rightarrow> nat option" where
  "sum3 r g b =
     (case (r, g, b) of (Some x, Some y, Some z) \<Rightarrow> Some (x + y + z) | _ \<Rightarrow> None)"

function count_loop :: "8 word list \<Rightarrow> nat \<Rightarrow> nat \<Rightarrow> nat \<Rightarrow> nat \<times> nat" where
  "count_loop d i tot maskPixels =
     (if i < length d then
        let alpha = byte_at d (i + 3) in
        if exceeds10 alpha then count_loop d (i + 4) (tot + 1) (maskPixels + 1)
        else
          let r = byte_at d i; g = byte_at d (i + 1); b = byte_at d (i + 2) in
          if exceeds10 (sum3 r g b) then count_loop d (i + 4) (tot + 1) (maskPixels + 1)
          else count_loop d (i + 4) (tot + 1) maskPixels
      else (tot, maskPixels))"
  by pat_completeness auto
termination
  by (relation "measure (\<lambda>(d, i, tot, maskPixels). length d - i)") auto

text \<open>
  The resolved fraction \<^verbatim>\<open>maskPixels / total\<close> (the counter \<^verbatim>\<open>total\<close> is \<open>tot\<close>
  here). With no pixel at all the quotient is
  \<^verbatim>\<open>0 / 0\<close>, that is \<^verbatim>\<open>NaN\<close>: \<open>None\<close>.
\<close>

definition computeMaskPixelFraction :: "8 word list \<Rightarrow> real option" where
  "computeMaskPixelFraction d =
     (case count_loop d 0 0 0 of
        (tot, maskPixels) \<Rightarrow>
          if tot = 0 then None else Some (real maskPixels / real tot))"

text \<open>
  The classification in the specification's words, for pixel number \<open>p\<close> of a buffer:
  alpha above 10, or alpha at or below 10 and red + green + blue above 10.
\<close>

definition is_food :: "8 word list \<Rightarrow> nat \<Rightarrow> bool" where
  "is_food d p \<longleftrightarrow>
     (let r = unat (d ! (4 * p)); g = unat (d ! (4 * p + 1)); b = unat (d ! (4 * p + 2));
          alpha = unat (d ! (4 * p + 3))
      in alpha > 10 \<or> (alpha \<le> 10 \<and> r + g + b > 10))"

definition food_pixels :: "8 word list \<Rightarrow> nat \<Rightarrow> nat" where
  "food_pixels d n = length (filter (is_food d) [0..<n])"

section \<open>The density estimator\<close>

text \<open>\<^verbatim>\<open>\d\<close> in a regular expression without the unicode flag: the ten ASCII digits.\<close>

definition is_digit :: "char \<Rightarrow> bool" where
  "is_digit c \<longleftrightarrow> c \<in> set ''0123456789''"

text \<open>
  \<^verbatim>\<open>out.match(/[\d]+(?:\.\d+)?/)\<close>, element 0 of the result, \<open>None\<close> for \<^verbatim>\<open>null\<close>.
  The engine tries the start positions from the left; the first position that can match
  is the first digit. There \<^verbatim>\<open>[\d]+\<close> takes the whole run of digits, and the optional
  group takes a dot and the following run of digits when the dot is followed by a digit.
\<close>

definition regex_match :: "string \<Rightarrow> string option" where
  "regex_match out =
     (case dropWhile (\<lambda>c. \<not> is_digit c) out of
        [] \<Rightarrow> None
      | c # cs \<Rightarrow>
          let whole = takeWhile is_digit (c # cs);
              rest = dropWhile is_digit (c # cs)
          in (case rest of
                x # y # ys \<Rightarrow>
                  if x = CHR ''.'' \<and> is_digit y
                  then Some (whole @ x # takeWhile is_digit (y # ys))
                  else Some whole
              | _ \<Rightarrow> Some whole))"

definition digit_value :: "char \<Rightarrow> nat" where
  "digit_value c = of_char c - 48"

definition decimal :: "string \<Rightarrow> nat" where
  "decimal ds = foldl (\<lambda>n c. 10 * n + digit_value c) 0 ds"

text \<open>
  \<^verbatim>\<open>parseFloat\<close> on the strings the pattern can match, digits with an optional dot and
  digits: the decimal number they denote (the nearest double in JavaScript).
\<close>

definition parseFloat :: "string \<Rightarrow> real" where
  "parseFloat m =
     (case dropWhile is_digit m of
        [] \<Rightarrow> real (decimal m)
      | x # fpart \<Rightarrow>
          real (decimal (takeWhile is_digit m)) + real (decimal fpart) / 10 ^ length fpart)"

text \<open>Lines 262 and 263: the number taken from the model's reply.\<close>

definition density_from_text :: "string \<Rightarrow> real" where
  "density_from_text out =
     (case regex_match out of Some m \<Rightarrow> parseFloat m | None \<Rightarrow> 1.0)"

text \<open>
  \<^verbatim>\<open>getDensityEstimateFromOpenAI\<close>. The chat completion is a parameter: from the food
  name, which the prompt is built from, to the rejection of the call or to the text
  \<^verbatim>\<open>out\<close> of line 261 (the empty string when the reply has no content).
\<close>

definition getDensityEstimateFromOpenAI :: "(jsval \<Rightarrow> error + string) \<Rightarrow> jsval \<Rightarrow> error + real" where
  "getDensityEstimateFromOpenAI chat foodName =
     (case chat foodName of
        Inl err \<Rightarrow> Inl err
      | Inr out \<Rightarrow> Inr (density_from_text out))"

text \<open>
  The pattern in the specification's words, an integer or a decimal: one or more digits,
  or one or more digits, a dot and one or more digits.
\<close>

definition digits :: "string \<Rightarrow> bool" where
  "digits ds \<longleftrightarrow> ds \<noteq> [] \<and> list_all is_digit ds"

definition numeric :: "string \<Rightarrow> bool" where
  "numeric m \<longleftrightarrow>
     digits m \<or>
     (let whole = takeWhile (\<lambda>c. c \<noteq> CHR ''.'') m; rest = dropWhile (\<lambda>c. c \<noteq> CHR ''.'') m
      in digits whole \<and> rest \<noteq> [] \<and> digits (tl rest))"

section \<open>The portion estimator\<close>

text \<open>
  \<^verbatim>\<open>Math.PI\<close> is the double nearest to \<open>\<pi>\<close>; this is its exact value. The arithmetic
  on it is exact here: the rounding of each floating-point operation is not modelled.
\<close>

definition Math_PI :: real where
  "Math_PI = 884279719003555 / 281474976710656"

text \<open>
  \<^verbatim>\<open>Number(x.toFixed(digits))\<close>: the multiple of \<open>10\<^sup>-\<^sup>d\<close> nearest to \<open>x\<close>, the one
  of larger magnitude of two equally near.
\<close>

definition toFixed :: "real \<Rightarrow> nat \<Rightarrow> real" where
  "toFixed x fractionDigits =
     (if x < 0 then - (of_int \<lfloor>- x * 10 ^ fractionDigits + 1 / 2\<rfloor> / 10 ^ fractionDigits)
      else of_int \<lfloor>x * 10 ^ fractionDigits + 1 / 2\<rfloor> / 10 ^ fractionDigits)"

text \<open>
  utils/portion.js. An option is \<open>None\<close> when the property is absent;
  \<^verbatim>\<open>opts.plateDiameterCm || 25\<close> takes the default for an absent option and for 0.
\<close>

record opts =
  opt_plateDiameterCm :: "real option"
  opt_heightCm :: "real option"

definition or_default :: "real option \<Rightarrow> real \<Rightarrow> real" where
  "or_default v dflt = (case v of None \<Rightarrow> dflt | Some x \<Rightarrow> if x = 0 then dflt else x)"

text \<open>The call with no second argument: \<^verbatim>\<open>opts = {}\<close>.\<close>

definition no_opts :: opts where
  "no_opts = \<lparr>opt_plateDiameterCm = None, opt_heightCm = None\<rparr>"

text \<open>The object the helper returns; its third field is the closure over the volume.\<close>

record portion_math =
  math_plateAreaCm2 :: real
  math_estimatedVolumeMl :: real
  rawGramsForDensity :: "real \<Rightarrow> real"

definition estimatePortionFromMaskFraction :: "real \<Rightarrow> opts \<Rightarrow> portion_math" where
  "estimatePortionFromMaskFraction pixelFraction options =
     (let defaultPlateDiameterCm = or_default (opt_plateDiameterCm options) 25;
          defaultHeightCm = or_default (opt_heightCm options) 2.5;
          plateAreaCm2 = Math_PI * (defaultPlateDiameterCm / 2.0) ^ 2;
          estimatedVolumeMl = pixelFraction * plateAreaCm2 * defaultHeightCm
      in \<lparr>math_plateAreaCm2 = plateAreaCm2,
          math_estimatedVolumeMl = estimatedVolumeMl,
          rawGramsForDensity = (\<lambda>density_g_per_ml. estimatedVolumeMl * density_g_per_ml)\<rparr>)"

text \<open>
  The arithmetic written out in the handler of \<^verbatim>\<open>/api/estimate-portion\<close> (server.js,
  lines 338 to 348), one definition for each of its constants.
\<close>

definition defaultPlateDiameterCm :: real where
  "defaultPlateDiameterCm = 25"

definition defaultHeightCm :: real where
  "defaultHeightCm = 2.5"

definition server_plateAreaCm2 :: real where
  "server_plateAreaCm2 = Math_PI * (defaultPlateDiameterCm / 2.0) ^ 2"

definition server_estimatedVolumeMl :: "real \<Rightarrow> real" where
  "server_estimatedVolumeMl fraction = fraction * server_plateAreaCm2 * defaultHeightCm"

definition rawPortionGrams :: "real \<Rightarrow> real \<Rightarrow> real" where
  "rawPortionGrams fraction density = server_estimatedVolumeMl fraction * density"

section \<open>The portion arithmetic on doubles\<close>

text \<open>
  The numbers of JavaScript are IEEE 754 binary64 values, and \<^verbatim>\<open>*\<close> and \<^verbatim>\<open>/\<close> return
  the double nearest to the exact result. A finite double is modelled by the real it
  denotes; the two zeros are not told apart.
\<close>

datatype double = Finite real | PosInf | NegInf | NaN

text \<open>The integer nearest to \<open>q\<close>, the even one of two equally near.\<close>

definition round_even :: "real \<Rightarrow> int" where
  "round_even q =
     (let n = \<lfloor>q\<rfloor>; r = q - of_int n
      in if r < 1 / 2 then n else if r > 1 / 2 then n + 1 else if even n then n else n + 1)"

text \<open>
  The exponent that fixes the spacing of the doubles around \<open>a > 0\<close>: that of the
  binade \<open>[2\<^sup>e, 2\<^sup>e\<^sup>+\<^sup>1)\<close> holding \<open>a\<close>, and \<open>-1022\<close> in the subnormal range below.
  Neighbouring doubles there are \<open>2\<^sup>e\<^sup>-\<^sup>5\<^sup>2\<close> apart.
\<close>

definition binade :: "real \<Rightarrow> int" where
  "binade a = max \<lfloor>log 2 a\<rfloor> (- 1022)"

text \<open>Rounding to nearest, ties to even, with no bound on the exponent above.\<close>

definition nearest :: "real \<Rightarrow> real" where
  "nearest x =
     (if x = 0 then 0
      else sgn x * of_int (round_even (\<bar>x\<bar> / 2 powi (binade \<bar>x\<bar> - 52)))
             * 2 powi (binade \<bar>x\<bar> - 52))"

text \<open>The double a real result is rounded to; beyond the largest double it is an infinity.\<close>

definition fl :: "real \<Rightarrow> double" where
  "fl x =
     (if nearest x \<ge> 2 ^ 1024 then PosInf
      else if nearest x \<le> - (2 ^ 1024) then NegInf
      else Finite (nearest x))"

text \<open>The operator \<^verbatim>\<open>*\<close>.\<close>

fun dmul :: "double \<Rightarrow> double \<Rightarrow> double" where
  "dmul (Finite a) (Finite b) = fl (a * b)"
| "dmul NaN y = NaN"
| "dmul x NaN = NaN"
| "dmul (Finite a) PosInf = (if a = 0 then NaN else if a > 0 then PosInf else NegInf)"
| "dmul (Finite a) NegInf = (if a = 0 then NaN else if a > 0 then NegInf else PosInf)"
| "dmul PosInf (Finite b) = (if b = 0 then NaN else if b > 0 then PosInf else NegInf)"
| "dmul NegInf (Finite b) = (if b = 0 then NaN else if b > 0 then NegInf else PosInf)"
| "dmul PosInf PosInf = PosInf"
| "dmul PosInf NegInf = NegInf"
| "dmul NegInf PosInf = NegInf"
| "dmul NegInf NegInf = PosInf"

text \<open>The comparison \<^verbatim>\<open><=\<close>, and the doubles that are zero, positive or \<open>+\<infinity>\<close>.\<close>

fun dle :: "double \<Rightarrow> double \<Rightarrow> bool" where
  "dle NaN y = False"
| "dle x NaN = False"
| "dle NegInf y = True"
| "dle x PosInf = True"
| "dle (Finite a) (Finite b) = (a \<le> b)"
| "dle PosInf y = False"
| "dle x NegInf = False"

fun nonneg :: "double \<Rightarrow> bool" where
  "nonneg (Finite a) = (0 \<le> a)"
| "nonneg PosInf = True"
| "nonneg _ = False"

text \<open>
  \<^verbatim>\<open>Math.pow(x, 2)\<close>, taken as the correctly rounded square, which is what the product
  \<open>x * x\<close> gives.
\<close>

definition Math_pow2 :: "double \<Rightarrow> double" where
  "Math_pow2 x = dmul x x"

text \<open>
  Lines 338 to 348 of the handler as the engine computes them: the operations of
  \<open>server_plateAreaCm2\<close>, \<open>server_estimatedVolumeMl\<close> and \<open>rawPortionGrams\<close> in
  the order of the source, each rounded.
\<close>

definition double_plateAreaCm2 :: double where
  "double_plateAreaCm2 = dmul (Finite Math_PI) (Math_pow2 (fl (defaultPlateDiameterCm / 2.0)))"

definition double_estimatedVolumeMl :: "real \<Rightarrow> double" where
  "double_estimatedVolumeMl fraction =
     dmul (dmul (Finite fraction) double_plateAreaCm2) (Finite defaultHeightCm)"

definition double_rawPortionGrams :: "real \<Rightarrow> real \<Rightarrow> double" where
  "double_rawPortionGrams fraction density =
     dmul (double_estimatedVolumeMl fraction) (Finite density)"

text \<open>The helper of utils/portion.js in the same way.\<close>

record portion_double =
  double_area :: double
  double_volume :: double
  double_grams :: "real \<Rightarrow> double"

definition double_estimatePortionFromMaskFraction :: "real \<Rightarrow> opts \<Rightarrow> portion_double" where
  "double_estimatePortionFromMaskFraction pixelFraction options =
     (let diameterCm = or_default (opt_plateDiameterCm options) 25;
          heightCm = or_default (opt_heightCm options) 2.5;
          areaCm2 = dmul (Finite Math_PI) (Math_pow2 (fl (diameterCm / 2.0)));
          volumeMl = dmul (dmul (Finite pixelFraction) areaCm2) (Finite heightCm)
      in \<lparr>double_area = areaCm2,
          double_volume = volumeMl,
          double_grams = (\<lambda>density_g_per_ml. dmul volumeMl (Finite density_g_per_ml))\<rparr>)"

text \<open>
  The doubles that JavaScript writes \<^verbatim>\<open>0.2923155744524506\<close>,
  \<^verbatim>\<open>0.29231557445245065\<close> and \<^verbatim>\<open>0.9\<close>: two neighbouring pixel fractions and a
  density.
\<close>

definition fraction_below :: real where
  "fraction_below = 1316472312178649 / 4503599627370496"

definition fraction_above :: real where
  "fraction_above = 5265889248714597 / 18014398509481984"

definition density_0_9 :: real where
  "density_0_9 = 8106479329266893 / 9007199254740992"

section \<open>The handler of the portion estimate\<close>

text \<open>The answers of the handler: status 400 with a message, status 500 with the error caught.\<close>

datatype failure = Status400 string | Status500 error

record plate =
  plateDiameterCm :: real
  assumedHeightCm :: real
  plateAreaCm2 :: real

record estimate =
  foodName :: jsval
  pixelFraction :: real
  plateAssumptions :: plate
  estimatedVolumeMl :: real
  density_g_per_ml :: real
  portionEstimate_g :: real

text \<open>Line 327: the fraction, or \<^verbatim>\<open>null\<close>.\<close>

definition valid_fraction :: "jsval \<Rightarrow> real option" where
  "valid_fraction v = (case v of JNum x \<Rightarrow> if x > 0 \<and> x \<le> 1 then Some x else None | _ \<Rightarrow> None)"

text \<open>
  The handler (lines 318 to 368) on the parsed request body. Destructuring a body that is
  \<^verbatim>\<open>null\<close> or \<^verbatim>\<open>undefined\<close> throws inside the \<^verbatim>\<open>try\<close>, as does a rejected call
  to the model; both end in the \<^verbatim>\<open>catch\<close>.
\<close>

definition estimate_portion :: "(jsval \<Rightarrow> error + string) \<Rightarrow> jsval \<Rightarrow> failure + estimate" where
  "estimate_portion chat body =
     (if body = JUndefined \<or> body = JNull then Inl (Status500 TypeError)
      else if \<not> truthy (get body ''imageBase64'') \<or> \<not> truthy (get body ''maskUrl'')
              \<or> \<not> truthy (get body ''foodName'')
        then Inl (Status400 ''Missing fields (imageBase64, maskUrl, foodName)'')
      else
        (case valid_fraction (get body ''pixelFraction'') of
           None \<Rightarrow> Inl (Status400
             ''Missing pixelFraction. Frontend should compute mask pixel fraction and send it.'')
         | Some fraction \<Rightarrow>
             (case getDensityEstimateFromOpenAI chat (get body ''foodName'') of
                Inl err \<Rightarrow> Inl (Status500 err)
              | Inr density \<Rightarrow>
                  Inr \<lparr>foodName = get body ''foodName'',
                       pixelFraction = fraction,
                       plateAssumptions =
                         \<lparr>plateDiameterCm = defaultPlateDiameterCm,
                          assumedHeightCm = defaultHeightCm,
                          plateAreaCm2 = toFixed server_plateAreaCm2 2\<rparr>,
                       estimatedVolumeMl = toFixed (server_estimatedVolumeMl fraction) 2,
                       density_g_per_ml = toFixed density 2,
                       portionEstimate_g = toFixed (rawPortionGrams fraction density) 1\<rparr>)))"

text \<open>The scenario of the specification: a request for rice and a model that answers 0.9.\<close>

definition rice_request :: jsval where
  "rice_request =
     JObj [(''imageBase64'', JStr ''data:image/jpeg;base64,AA''),
           (''maskUrl'', JStr ''https://replicate.delivery/m/mask.png''),
           (''foodName'', JStr ''rice''),
           (''pixelFraction'', JNum 0.30)]"

definition rice_chat :: "jsval \<Rightarrow> error + string" where
  "rice_chat name = Inr ''0.9''"

text \<open>
  Three pixel buffers: four pixels of which the first is opaque and the last is bright
  but transparent, two opaque red pixels, two transparent black pixels.
\<close>

definition half_mask :: "8 word list" where
  "half_mask = [255, 0, 0, 255,  0, 0, 0, 0,  0, 0, 0, 0,  200, 200, 200, 0]"

definition red_mask :: "8 word list" where
  "red_mask = [255, 0, 0, 255,  255, 0, 0, 255]"

definition clear_mask :: "8 word list" where
  "clear_mask = [0, 0, 0, 0,  0, 0, 0, 0]"

text \<open>Two requests without a usable pixel fraction: one above 1, one absent.\<close>

definition oversized_request :: jsval where
  "oversized_request =
     JObj [(''imageBase64'', JStr ''data:image/jpeg;base64,AA''),
           (''maskUrl'', JStr ''https://replicate.delivery/m/mask.png''),
           (''foodName'', JStr ''rice''),
           (''pixelFraction'', JNum 1.5)]"

definition unmeasured_request :: jsval where
  "unmeasured_request =
     JObj [(''imageBase64'', JStr ''data:image/jpeg;base64,AA''),
           (''maskUrl'', JStr ''https://replicate.delivery/m/mask.png''),
           (''foodName'', JStr ''rice'')]"

text \<open>
  A service whose creation answer is already a failed prediction, and one whose creation
  answer has the body \<^verbatim>\<open>null\<close>; neither hands out a poll location.
\<close>

definition out_of_memory :: env where
  "out_of_memory =
     \<lparr>REPLICATE_API_TOKEN = Some ''r8_token'',
      REPLICATE_MODEL_VERSION = Some ''yolov8-seg'',
      http_post = (\<lambda>url body headers.
         Inr (JObj [(''status'', JStr ''failed''), (''error'', JStr ''CUDA out of memory'')])),
      http_get = (\<lambda>url headers n. Inl (HttpError ''404''))\<rparr>"

definition no_content :: env where
  "no_content =
     \<lparr>REPLICATE_API_TOKEN = Some ''r8_token'',
      REPLICATE_MODEL_VERSION = Some ''yolov8-seg'',
      http_post = (\<lambda>url body headers. Inr JNull),
      http_get = (\<lambda>url headers n. Inl (HttpError ''404''))\<rparr>"

text \<open>
  A service that answers at once, with no poll location, a finished prediction whose
  output holds labels and no image reference.
\<close>

definition labels_only :: env where
  "labels_only =
     \<lparr>REPLICATE_API_TOKEN = Some ''r8_token'',
      REPLICATE_MODEL_VERSION = Some ''yolov8-seg'',
      http_post = (\<lambda>url body headers.
         Inr (JObj [(''status'', JStr ''succeeded''),
                    (''output'', JArr [JStr ''rice'', JObj [(''confidence'', JNum 0.9),
                                                         (''file'', JStr ''mask.png'')]])])),
      http_get = (\<lambda>url headers n. Inl (HttpError ''404''))\<rparr>"

section \<open>Search results\<close>

lemma first_found_None: "first_found rs = None \<longleftrightarrow> (\<forall>r \<in> set rs. r = None)"
  by (induction rs rule: first_found.induct) auto

lemma first_found_Some: "first_found rs = Some v \<Longrightarrow> Some v \<in> set rs"
  by (induction rs rule: first_found.induct) auto

lemma first_found_Cons:
  "first_found (r # rs) = (case r of None \<Rightarrow> first_found rs | Some v \<Rightarrow> Some v)"
  by (cases r) simp_all

lemma first_found_append:
  "first_found (rs @ ts) = (case first_found rs of Some v \<Rightarrow> Some v | None \<Rightarrow> first_found ts)"
  by (induction rs rule: first_found.induct) auto

lemma find_concat: "find P (concat xss) = first_found (map (find P) xss)"
proof (induction xss)
  case Nil
  show ?case by simp
next
  case (Cons xs xss)
  show ?case
  proof (cases "find P xs")
    case None
    then have "find P (xs @ concat xss) = find P (concat xss)"
      by (induction xs) (auto split: if_splits)
    with None Cons show ?thesis by simp
  next
    case (Some v)
    then have "find P (xs @ concat xss) = Some v"
      by (induction xs) (auto split: if_splits)
    with Some show ?thesis by simp
  qed
qed

lemma first_found_skip_seen:
  assumes "\<forall>k \<in> set ks. g k = None"
  shows "first_found (map g ys) = first_found (map g (filter (\<lambda>k. k \<notin> set ks) ys))"
  using assms by (induction ys) (auto simp: first_found_Cons split: option.splits)

lemma findMaskUrl_falsy: "\<not> truthy v \<Longrightarrow> findMaskUrl v = None"
  by (cases v) auto

lemma locate_fun: "locate = (\<lambda>out. find accepts (dfs_order out))"
  by (rule ext) (simp add: locate_def)

lemma get_in_strings: "strings_of (get (JObj kvs) k) \<subseteq> strings_of (JObj kvs)"
proof (cases "map_of kvs k")
  case None
  then show ?thesis by simp
next
  case (Some v)
  then have "(k, v) \<in> set kvs" by (rule map_of_SomeD)
  with Some show ?thesis by force
qed

lemma findMaskUrl_sound:
  "findMaskUrl out = Some s \<Longrightarrow> accepts s \<and> s \<in> strings_of out"
proof (induction out rule: findMaskUrl.induct)
  case (1 t)
  then show ?case by (auto split: if_splits)
next
  case (2 xs)
  from "2.prems" have "first_found (map findMaskUrl xs) = Some s"
    by (simp split: option.splits)
  then obtain x where "x \<in> set xs" "findMaskUrl x = Some s"
    by (auto dest!: first_found_Some)
  with "2.IH" show ?case by auto
next
  case (3 kvs)
  let ?o = "JObj kvs"
  from "3.prems" obtain k where k: "findMaskUrl (get ?o k) = Some s"
    and kin: "k \<in> set mask_keys \<and> truthy (get ?o k) \<or> k \<in> set (Object_keys ?o)"
    by (auto dest!: first_found_Some simp del: get.simps Object_keys.simps split: if_splits)
  from kin k "3.IH" have "accepts s \<and> s \<in> strings_of (get ?o k)"
    by blast
  with get_in_strings [of kvs k] show ?case by blast
qed simp_all

lemma findMaskUrl_none:
  "\<forall>s \<in> strings_of out. \<not> accepts s \<Longrightarrow> findMaskUrl out = None"
  using findMaskUrl_sound [of out] by (cases "findMaskUrl out") auto

lemma ext_not_http: "e \<in> set image_exts \<Longrightarrow> CHR ''/'' \<notin> set e \<and> CHR ''.'' \<notin> set e \<and> \<not> prefix ''http'' e"
  by (auto simp: image_exts_def)

lemma takeWhile_absent: "c \<notin> set xs \<Longrightarrow> takeWhile (\<lambda>x. x \<noteq> c) xs = xs"
  by (induction xs) auto

lemma takeWhile_rev_split:
  assumes "c \<in> set q"
  shows "\<exists>pre. q = pre @ c # rev (takeWhile (\<lambda>x. x \<noteq> c) (rev q))"
proof -
  from assms have "c \<in> set (rev q)" by simp
  then obtain ys zs where r: "rev q = ys @ c # zs" "c \<notin> set ys"
    by (meson split_list_first)
  then have "takeWhile (\<lambda>x. x \<noteq> c) (rev q) = ys"
    by (simp add: takeWhile_tail takeWhile_absent)
  moreover from r have "q = rev zs @ c # rev ys"
    by (metis rev_append rev.simps(2) rev_rev_ident append.assoc append_Cons append_Nil)
  ultimately show ?thesis by auto
qed

lemma after_last_dot_app:
  "CHR ''.'' \<notin> set e \<Longrightarrow> after_last_dot (pre @ CHR ''.'' # e) = e"
  by (simp add: after_last_dot_def takeWhile_tail takeWhile_absent)

lemma trailing_segment_app:
  "CHR ''/'' \<notin> set e \<Longrightarrow> trailing_segment (pre @ CHR ''.'' # e) = trailing_segment pre @ CHR ''.'' # e"
  by (simp add: trailing_segment_def takeWhile_append)

lemma ext_rule:
  assumes "prefix ''http'' q"
  shows "after_last_dot q \<in> set image_exts \<longleftrightarrow>
         extension (trailing_segment q) \<in> Some ` set image_exts"
proof (cases "CHR ''.'' \<in> set q")
  case False
  then have "after_last_dot q = q"
    by (simp add: after_last_dot_def takeWhile_absent)
  moreover have "CHR ''.'' \<notin> set (trailing_segment q)"
    using False by (auto simp: trailing_segment_def dest: set_takeWhileD)
  ultimately show ?thesis
    using assms ext_not_http [of q] by (auto simp: extension_def)
next
  case True
  from takeWhile_rev_split [OF this]
  obtain pre where q: "q = pre @ CHR ''.'' # after_last_dot q"
    by (auto simp: after_last_dot_def)
  have nodot: "CHR ''.'' \<notin> set (after_last_dot q)"
    by (auto simp: after_last_dot_def dest: set_takeWhileD)
  show ?thesis
  proof
    assume a: "after_last_dot q \<in> set image_exts"
    then have "CHR ''/'' \<notin> set (after_last_dot q)" by (simp add: ext_not_http)
    from trailing_segment_app [OF this, of pre] q
    have "trailing_segment q = trailing_segment pre @ CHR ''.'' # after_last_dot q" by simp
    then have "extension (trailing_segment q) = Some (after_last_dot q)"
      using nodot by (simp add: extension_def after_last_dot_app)
    with a show "extension (trailing_segment q) \<in> Some ` set image_exts" by simp
  next
    assume "extension (trailing_segment q) \<in> Some ` set image_exts"
    then have d: "CHR ''.'' \<in> set (trailing_segment q)"
      and e: "after_last_dot (trailing_segment q) \<in> set image_exts"
      by (auto simp: extension_def split: if_splits)
    have "\<exists>pre. q = pre @ trailing_segment q"
      unfolding trailing_segment_def
      by (metis rev_append rev_rev_ident takeWhile_dropWhile_id)
    then obtain p where p: "q = p @ trailing_segment q" by blast
    from takeWhile_rev_split [OF d]
    obtain p2 where "trailing_segment q = p2 @ CHR ''.'' # after_last_dot (trailing_segment q)"
      by (auto simp: after_last_dot_def)
    with p have "q = (p @ p2) @ CHR ''.'' # after_last_dot (trailing_segment q)" by simp
    moreover have "CHR ''.'' \<notin> set (after_last_dot (trailing_segment q))"
      by (auto simp: after_last_dot_def dest: set_takeWhileD)
    ultimately have "after_last_dot q = after_last_dot (trailing_segment q)"
      by (metis after_last_dot_app)
    with e show "after_last_dot q \<in> set image_exts" by simp
  qed
qed

lemma before_query_http: "prefix ''http'' s \<Longrightarrow> prefix ''http'' (before_query s)"
  by (auto simp: before_query_def prefix_def)

lemma accepts_iff_rule: "accepts s \<longleftrightarrow> mask_rule s"
proof (cases "prefix ''data:'' s")
  case True
  then show ?thesis by (simp add: accepts_def mask_rule_def startsWith_def)
next
  case False
  have h: "prefix ''https'' s \<Longrightarrow> prefix ''http'' s"
    by (auto simp: prefix_def)
  show ?thesis
  proof (cases "prefix ''http'' s")
    case True
    from ext_rule [OF before_query_http [OF this]] True False show ?thesis
      by (simp add: accepts_def mask_rule_def startsWith_def)
  next
    case nh: False
    with False h show ?thesis
      by (auto simp: accepts_def mask_rule_def startsWith_def)
  qed
qed

section \<open>The mask locator: claims\<close>

text \<open>
  Claim C3, as amended. On the structure
  \<^verbatim>\<open>{ segmentation: { mask: a }, overlay: b }\<close> the locator returns \<open>a\<close> whenever \<open>a\<close>
  is a string it accepts, whatever \<open>b\<close> is: the key \<^verbatim>\<open>segmentation\<close> is explored, and
  the \<^verbatim>\<open>mask\<close> inside it found, before the key \<^verbatim>\<open>overlay\<close>.
\<close>

theorem findMaskUrl_segmentation_before_overlay:
  "accepts a \<Longrightarrow>
   findMaskUrl (JObj [(''segmentation'', JObj [(''mask'', JStr a)]), (''overlay'', JStr b)])
     = Some a"
  by (auto simp: mask_keys_def accepts_def startsWith_def)

theorem findMaskUrl_segmentation_before_overlay_witness:
  "accepts ''https://replicate.delivery/a.png'' \<and>
   findMaskUrl (JObj [(''segmentation'', JObj [(''mask'', JStr ''https://replicate.delivery/a.png'')]),
                      (''overlay'', JStr ''https://replicate.delivery/b.png'')])
     = Some ''https://replicate.delivery/a.png''"
proof -
  have a: "accepts ''https://replicate.delivery/a.png''"
    by (simp add: accepts_def startsWith_def before_query_def after_last_dot_def image_exts_def)
  from a findMaskUrl_segmentation_before_overlay [OF a, of "''https://replicate.delivery/b.png''"]
  show ?thesis by simp
qed

text \<open>
  The structure of claim C3 as it is written: neither \<^verbatim>\<open>"a.png"\<close> nor \<^verbatim>\<open>"b.png"\<close>
  starts with \<^verbatim>\<open>http\<close> or \<^verbatim>\<open>data:\<close>, so the locator finds nothing.
\<close>

theorem findMaskUrl_bare_names_counterexample:
  "findMaskUrl (JObj [(''segmentation'', JObj [(''mask'', JStr ''a.png'')]),
                      (''overlay'', JStr ''b.png'')]) = None"
  by (simp add: accepts_def startsWith_def mask_keys_def)

text \<open>
  Claim C7. The locator is the depth-first search with the fixed priority order: on every
  structure it returns the first accepted string in the order \<open>dfs_order\<close>, which at a
  mapping goes into \<^verbatim>\<open>mask\<close>, \<^verbatim>\<open>masks\<close>, \<^verbatim>\<open>segmentation\<close>, \<^verbatim>\<open>segmented_image\<close>,
  \<^verbatim>\<open>overlay\<close> in that order before the remaining keys and at a sequence takes the
  elements in their order. The result is a function of the structure alone, so two runs
  on one structure agree.
\<close>

theorem findMaskUrl_priority_dfs: "findMaskUrl out = locate out"
proof (induction out rule: findMaskUrl.induct)
  case (1 s)
  show ?case by (auto simp: locate_def accepts_def startsWith_def)
next
  case (2 xs)
  then have m: "map findMaskUrl xs = map locate xs" by simp
  have "findMaskUrl (JArr xs) = first_found (map findMaskUrl xs)"
    by (simp split: option.splits)
  also have "\<dots> = first_found (map locate xs)"
    by (simp only: m)
  also have "\<dots> = locate (JArr xs)"
    by (simp add: locate_fun find_concat comp_def)
  finally show ?case .
next
  case (3 kvs)
  let ?o = "JObj kvs"
  let ?g = "\<lambda>k. findMaskUrl (get ?o k)"
  have eq: "?g k = locate (get ?o k)" for k
  proof (cases "k \<in> set (Object_keys ?o)")
    case True
    with 3 show ?thesis by simp
  next
    case False
    then have "map_of kvs k = None"
      by (simp add: map_of_eq_None_iff)
    then show ?thesis by (simp add: locate_def)
  qed
  have "(\<lambda>k. if truthy (get ?o k) then findMaskUrl (get ?o k) else None) = ?g"
    by (rule ext) (simp add: findMaskUrl_falsy)
  then have "findMaskUrl ?o = first_found (map ?g mask_keys @ map ?g (Object_keys ?o))"
    by simp
  also have "\<dots> = first_found (map ?g mask_keys @ map ?g (filter (\<lambda>k. k \<notin> set mask_keys) (Object_keys ?o)))"
  proof (cases "first_found (map ?g mask_keys)")
    case None
    then have "\<forall>k \<in> set mask_keys. ?g k = None"
      by (simp add: first_found_None)
    from first_found_skip_seen [OF this] None show ?thesis
      by (simp add: first_found_append)
  next
    case (Some v)
    then show ?thesis by (simp add: first_found_append)
  qed
  also have "\<dots> = first_found (map (\<lambda>k. locate (get ?o k))
      (mask_keys @ filter (\<lambda>k. k \<notin> set mask_keys) (Object_keys ?o)))"
    by (simp only: eq map_append)
  also have "\<dots> = locate ?o"
    by (simp only: locate_fun dfs_order.simps find_concat map_map comp_def)
  finally show ?case .
qed (simp_all add: locate_def)

theorem findMaskUrl_priority_dfs_witness:
  "locate (JObj [(''overlay'', JStr ''https://replicate.delivery/b.png''),
                 (''extra'', JArr [JStr ''label'', JStr ''data:image/png;base64,AA'']),
                 (''segmentation'', JObj [(''mask'', JStr ''https://replicate.delivery/a.png'')])])
     = Some ''https://replicate.delivery/a.png''"
proof -
  have "findMaskUrl (JObj [(''overlay'', JStr ''https://replicate.delivery/b.png''),
                 (''extra'', JArr [JStr ''label'', JStr ''data:image/png;base64,AA'']),
                 (''segmentation'', JObj [(''mask'', JStr ''https://replicate.delivery/a.png'')])])
     = Some ''https://replicate.delivery/a.png''"
    by (simp add: accepts_def startsWith_def mask_keys_def before_query_def after_last_dot_def
        image_exts_def)
  then show ?thesis by (simp only: findMaskUrl_priority_dfs)
qed

section \<open>The segmentation invoker: claims\<close>

lemma poll_loop_stays_pending:
  assumes "is_pending p"
    and "\<forall>n<60. \<exists>d. http_get e u h n = Inr d \<and> is_pending d"
    and "tries \<le> 60"
  shows "poll_loop e u h p tries w =
           Inr (if tries = 60 then p else projr (http_get e u h 59), 60, w + 1000 * (60 - tries))"
  using assms
proof (induction e u h p tries w rule: poll_loop.induct)
  case (1 e u h p tries w)
  from "1.prems"(1) obtain st where st: "member p ''status'' = Inr st" "pending st"
    by (auto simp: is_pending_def split: sum.splits)
  show ?case
  proof (cases "tries < 60")
    case False
    with "1.prems"(3) have "tries = 60" by simp
    with st show ?thesis by simp
  next
    case True
    with "1.prems"(2) obtain d where d: "http_get e u h tries = Inr d" "is_pending d"
      by blast
    from True have le: "tries + 1 \<le> 60" by simp
    have "poll_loop e u h p tries w = poll_loop e u h d (tries + 1) (w + 1000)"
      using st True d by simp
    also have "\<dots> = Inr (if tries + 1 = 60 then d else projr (http_get e u h 59), 60,
                        w + 1000 + 1000 * (60 - (tries + 1)))"
      using "1.IH" [OF st(1) _ d(1) d(2) "1.prems"(2) le] st(2) True by simp
    also have "\<dots> = Inr (if tries = 60 then p else projr (http_get e u h 59), 60,
                        w + 1000 * (60 - tries))"
      using True d by (auto simp: algebra_simps)
    finally show ?thesis .
  qed
qed

lemma member_output: "member p ''status'' = Inr st \<Longrightarrow> member p ''output'' = Inr (get p ''output'')"
  by (cases p) auto

lemma never_ready_polls:
  "poll_loop never_ready u h
     (JObj [(''status'', JStr ''starting''),
            (''urls'', JObj [(''get'', JStr ''https://api.replicate.com/v1/predictions/p1'')])]) 0 0
   = Inr (JObj [(''status'', JStr ''processing'')], 60, 60000)"
proof -
  let ?data = "JObj [(''status'', JStr ''starting''),
                    (''urls'', JObj [(''get'', JStr ''https://api.replicate.com/v1/predictions/p1'')])]"
  let ?p = "JObj [(''status'', JStr ''processing'')]"
  have pd: "is_pending ?data" and pp: "is_pending ?p"
    by (simp_all add: is_pending_def pending_def)
  have all: "\<forall>n<60. \<exists>d. http_get never_ready u h n = Inr d \<and> is_pending d"
    using pp by (simp add: never_ready_def)
  from poll_loop_stays_pending [OF pd all, of 0 0] show ?thesis
    by (simp add: never_ready_def)
qed

text \<open>
  Claim C1, as amended. When the creation answer is pending and carries a poll location,
  and each of the first 60 polls answers with a pending prediction, then the loop asks
  \<^verbatim>\<open>setTimeout\<close> for 1000 ms before each poll, makes exactly 60 polls and stops; and
  \<^verbatim>\<open>runModelVersion\<close> returns the answer of the 60th poll, still pending, with the
  result of the mask search on its output. It does not throw. After the loop, whatever
  ended it, a prediction whose status can be read raises an error exactly when that
  status is \<^verbatim>\<open>failed\<close>, and the error carries the prediction; any other status is
  returned with the result of the mask search. The only other error after the loop is
  the \<^verbatim>\<open>TypeError\<close> of a prediction that is \<^verbatim>\<open>null\<close> or \<^verbatim>\<open>undefined\<close>.
\<close>

theorem poll_cap_returns_pending_prediction:
  assumes "string_truthy (REPLICATE_API_TOKEN e)"
    and "string_truthy (REPLICATE_MODEL_VERSION e)"
    and "http_post e predictions_url (request_body (the (REPLICATE_MODEL_VERSION e)) dataUrl)
           (request_headers (the (REPLICATE_API_TOKEN e))) = Inr data"
  shows "(truthy (predictionUrl data) \<and> is_pending data \<and>
          (\<forall>n<60. \<exists>d. http_get e (predictionUrl data)
                         (request_headers (the (REPLICATE_API_TOKEN e))) n = Inr d \<and> is_pending d)
          \<longrightarrow> (\<exists>last.
                 http_get e (predictionUrl data) (request_headers (the (REPLICATE_API_TOKEN e))) 59
                   = Inr last \<and>
                 is_pending last \<and>
                 poll_loop e (predictionUrl data) (request_headers (the (REPLICATE_API_TOKEN e)))
                     data 0 0
                   = Inr (last, 60, 60000) \<and>
                 runModelVersion e dataUrl
                   = Inr \<lparr>prediction = last, maskUrl = findMaskUrl (get last ''output'')\<rparr>)) \<and>
         ((if truthy (predictionUrl data)
             then poll_loop e (predictionUrl data) (request_headers (the (REPLICATE_API_TOKEN e)))
                    data 0 0
             else Inr (data, 0, 0)) = Inr (pred, tries, waited)
          \<longrightarrow> (\<forall>status. member pred ''status'' = Inr status \<longrightarrow>
                 runModelVersion e dataUrl =
                   (if status = JStr ''failed'' then Inl (PredictionFailed pred)
                    else Inr \<lparr>prediction = pred,
                              maskUrl = findMaskUrl (get pred ''output'')\<rparr>)) \<and>
              (member pred ''status'' = Inl TypeError \<longrightarrow>
                 runModelVersion e dataUrl = Inl TypeError))"
proof (intro conjI impI allI)
  let ?h = "request_headers (the (REPLICATE_API_TOKEN e))"
  assume a: "truthy (predictionUrl data) \<and> is_pending data \<and>
          (\<forall>n<60. \<exists>d. http_get e (predictionUrl data) ?h n = Inr d \<and> is_pending d)"
  then have polls: "\<forall>n<60. \<exists>d. http_get e (predictionUrl data) ?h n = Inr d \<and> is_pending d"
    and pd: "is_pending data" and url: "truthy (predictionUrl data)"
    by simp_all
  have "(59::nat) < 60" by simp
  with polls obtain last
    where last: "http_get e (predictionUrl data) ?h 59 = Inr last" "is_pending last"
    by blast
  have loop: "poll_loop e (predictionUrl data) ?h data 0 0 = Inr (last, 60, 60000)"
    using poll_loop_stays_pending [OF pd polls, of 0 0] last by simp
  from last(2) obtain st where st: "member last ''status'' = Inr st" "pending st"
    by (auto simp: is_pending_def split: sum.splits)
  then have nf: "st \<noteq> JStr ''failed''" by (auto simp: pending_def)
  have "runModelVersion e dataUrl
          = Inr \<lparr>prediction = last, maskUrl = findMaskUrl (get last ''output'')\<rparr>"
    using assms url loop st(1) nf member_output [OF st(1)]
    by (simp add: runModelVersion_def Let_def)
  with last loop
  show "\<exists>last. http_get e (predictionUrl data) ?h 59 = Inr last \<and> is_pending last \<and>
          poll_loop e (predictionUrl data) ?h data 0 0 = Inr (last, 60, 60000) \<and>
          runModelVersion e dataUrl
            = Inr \<lparr>prediction = last, maskUrl = findMaskUrl (get last ''output'')\<rparr>"
    by blast
next
  fix status
  let ?h = "request_headers (the (REPLICATE_API_TOKEN e))"
  assume fin: "(if truthy (predictionUrl data)
             then poll_loop e (predictionUrl data) ?h data 0 0
             else Inr (data, 0, 0)) = Inr (pred, tries, waited)"
    and st: "member pred ''status'' = Inr status"
  from assms fin st member_output [OF st]
  show "runModelVersion e dataUrl =
          (if status = JStr ''failed'' then Inl (PredictionFailed pred)
           else Inr \<lparr>prediction = pred, maskUrl = findMaskUrl (get pred ''output'')\<rparr>)"
    by (simp add: runModelVersion_def Let_def)
next
  let ?h = "request_headers (the (REPLICATE_API_TOKEN e))"
  assume fin: "(if truthy (predictionUrl data)
             then poll_loop e (predictionUrl data) ?h data 0 0
             else Inr (data, 0, 0)) = Inr (pred, tries, waited)"
    and st: "member pred ''status'' = Inl TypeError"
  from assms fin st show "runModelVersion e dataUrl = Inl TypeError"
    by (simp add: runModelVersion_def Let_def)
qed

theorem poll_cap_returns_pending_prediction_witness:
  "poll_loop never_ready (JStr ''https://api.replicate.com/v1/predictions/p1'')
     (request_headers ''r8_token'')
     (JObj [(''status'', JStr ''starting''),
            (''urls'', JObj [(''get'', JStr ''https://api.replicate.com/v1/predictions/p1'')])]) 0 0
     = Inr (JObj [(''status'', JStr ''processing'')], 60, 60000) \<and>
   runModelVersion never_ready ''data:image/png;base64,AA''
     = Inr \<lparr>prediction = JObj [(''status'', JStr ''processing'')], maskUrl = None\<rparr> \<and>
   runModelVersion out_of_memory ''data:image/png;base64,AA''
     = Inl (PredictionFailed
              (JObj [(''status'', JStr ''failed''), (''error'', JStr ''CUDA out of memory'')])) \<and>
   runModelVersion no_content ''data:image/png;base64,AA'' = Inl TypeError"
proof -
  let ?data = "JObj [(''status'', JStr ''starting''),
                    (''urls'', JObj [(''get'', JStr ''https://api.replicate.com/v1/predictions/p1'')])]"
  let ?failed = "JObj [(''status'', JStr ''failed''), (''error'', JStr ''CUDA out of memory'')]"
  have 1: "string_truthy (REPLICATE_API_TOKEN never_ready)"
    and 2: "string_truthy (REPLICATE_MODEL_VERSION never_ready)"
    by (simp_all add: never_ready_def string_truthy_def)
  have 3: "http_post never_ready predictions_url
             (request_body (the (REPLICATE_MODEL_VERSION never_ready)) ''data:image/png;base64,AA'')
             (request_headers (the (REPLICATE_API_TOKEN never_ready))) = Inr ?data"
    by (simp add: never_ready_def)
  have u: "predictionUrl ?data = JStr ''https://api.replicate.com/v1/predictions/p1''"
    by (simp add: predictionUrl_def js_and_def)
  then have 4: "truthy (predictionUrl ?data)" by simp
  have 5: "is_pending ?data" by (simp add: is_pending_def pending_def)
  have 6: "\<forall>n<60. \<exists>d. http_get never_ready (predictionUrl ?data)
                         (request_headers (the (REPLICATE_API_TOKEN never_ready))) n = Inr d \<and> is_pending d"
    by (simp add: never_ready_def is_pending_def pending_def)
  from poll_cap_returns_pending_prediction [OF 1 2 3] 4 5 6
  have pending_case: "\<exists>last.
      http_get never_ready (predictionUrl ?data)
        (request_headers (the (REPLICATE_API_TOKEN never_ready))) 59 = Inr last \<and>
      is_pending last \<and>
      poll_loop never_ready (predictionUrl ?data)
        (request_headers (the (REPLICATE_API_TOKEN never_ready))) ?data 0 0 = Inr (last, 60, 60000) \<and>
      runModelVersion never_ready ''data:image/png;base64,AA''
        = Inr \<lparr>prediction = last, maskUrl = findMaskUrl (get last ''output'')\<rparr>"
    by blast
  then have r1: "poll_loop never_ready (JStr ''https://api.replicate.com/v1/predictions/p1'')
       (request_headers ''r8_token'') ?data 0 0
       = Inr (JObj [(''status'', JStr ''processing'')], 60, 60000) \<and>
     runModelVersion never_ready ''data:image/png;base64,AA''
       = Inr \<lparr>prediction = JObj [(''status'', JStr ''processing'')], maskUrl = None\<rparr>"
    by (auto simp: u never_ready_def)
  have f1: "string_truthy (REPLICATE_API_TOKEN out_of_memory)"
    and f2: "string_truthy (REPLICATE_MODEL_VERSION out_of_memory)"
    by (simp_all add: out_of_memory_def string_truthy_def)
  have f3: "http_post out_of_memory predictions_url
             (request_body (the (REPLICATE_MODEL_VERSION out_of_memory)) ''data:image/png;base64,AA'')
             (request_headers (the (REPLICATE_API_TOKEN out_of_memory))) = Inr ?failed"
    by (simp add: out_of_memory_def)
  have f4: "(if truthy (predictionUrl ?failed)
               then poll_loop out_of_memory (predictionUrl ?failed)
                      (request_headers (the (REPLICATE_API_TOKEN out_of_memory))) ?failed 0 0
               else Inr (?failed, 0, 0)) = Inr (?failed, 0, 0)"
    by (simp add: predictionUrl_def js_and_def)
  have f5: "member ?failed ''status'' = Inr (JStr ''failed'')" by simp
  from poll_cap_returns_pending_prediction [OF f1 f2 f3] f4 f5
  have r2: "runModelVersion out_of_memory ''data:image/png;base64,AA'' = Inl (PredictionFailed ?failed)"
    by (metis (full_types))
  have n1: "string_truthy (REPLICATE_API_TOKEN no_content)"
    and n2: "string_truthy (REPLICATE_MODEL_VERSION no_content)"
    by (simp_all add: no_content_def string_truthy_def)
  have n3: "http_post no_content predictions_url
             (request_body (the (REPLICATE_MODEL_VERSION no_content)) ''data:image/png;base64,AA'')
             (request_headers (the (REPLICATE_API_TOKEN no_content))) = Inr JNull"
    by (simp add: no_content_def)
  have n4: "(if truthy (predictionUrl JNull)
               then poll_loop no_content (predictionUrl JNull)
                      (request_headers (the (REPLICATE_API_TOKEN no_content))) JNull 0 0
               else Inr (JNull, 0, 0)) = Inr (JNull, 0, 0)"
    by (simp add: predictionUrl_def js_and_def)
  have n5: "member JNull ''status'' = Inl TypeError" by simp
  from poll_cap_returns_pending_prediction [OF n1 n2 n3] n4 n5
  have r3: "runModelVersion no_content ''data:image/png;base64,AA'' = Inl TypeError"
    by blast
  from r1 r2 r3 show ?thesis by blast
qed

text \<open>
  Claim C1 as it is written fails: against the service that stays in \<^verbatim>\<open>processing\<close>
  the call ends after the 60 polls with a result, the pending prediction and no mask,
  and not with an error.
\<close>

theorem never_ready_counterexample:
  "runModelVersion never_ready ''data:image/jpeg;base64,AA'' =
     Inr \<lparr>prediction = JObj [(''status'', JStr ''processing'')], maskUrl = None\<rparr>"
  using never_ready_polls
  by (simp add: runModelVersion_def never_ready_def string_truthy_def predictionUrl_def
      js_and_def Let_def)

text \<open>
  Claim C6. A string is accepted exactly when it satisfies the rule of the specification;
  whatever the locator returns is a string of the structure that satisfies the rule; a
  structure with no such string gives \<^verbatim>\<open>null\<close>; and when the final prediction, whose
  status is not \<^verbatim>\<open>failed\<close>, has no such string in its output, \<^verbatim>\<open>runModelVersion\<close>
  returns that prediction with the mask \<^verbatim>\<open>null\<close>: a result, not an error.
\<close>

theorem mask_rule_and_null_result:
  "(accepts s \<longleftrightarrow> mask_rule s) \<and>
   (findMaskUrl out = Some s \<longrightarrow> mask_rule s \<and> s \<in> strings_of out) \<and>
   ((\<forall>t \<in> strings_of out. \<not> mask_rule t) \<longrightarrow> findMaskUrl out = None) \<and>
   (string_truthy (REPLICATE_API_TOKEN e) \<and> string_truthy (REPLICATE_MODEL_VERSION e) \<and>
    http_post e predictions_url (request_body (the (REPLICATE_MODEL_VERSION e)) dataUrl)
      (request_headers (the (REPLICATE_API_TOKEN e))) = Inr data \<and>
    (if truthy (predictionUrl data)
       then poll_loop e (predictionUrl data) (request_headers (the (REPLICATE_API_TOKEN e))) data 0 0
       else Inr (data, 0, 0)) = Inr (pred, tries, waited) \<and>
    member pred ''status'' = Inr status \<and> status \<noteq> JStr ''failed'' \<and>
    (\<forall>t \<in> strings_of (get pred ''output''). \<not> mask_rule t)
    \<longrightarrow> runModelVersion e dataUrl = Inr \<lparr>prediction = pred, maskUrl = None\<rparr>)"
proof (intro conjI impI)
  show "accepts s \<longleftrightarrow> mask_rule s" by (rule accepts_iff_rule)
next
  assume "findMaskUrl out = Some s"
  from findMaskUrl_sound [OF this] show "mask_rule s" and "s \<in> strings_of out"
    by (simp_all add: accepts_iff_rule)
next
  assume "\<forall>t \<in> strings_of out. \<not> mask_rule t"
  then show "findMaskUrl out = None"
    by (intro findMaskUrl_none) (simp add: accepts_iff_rule)
next
  assume a: "string_truthy (REPLICATE_API_TOKEN e) \<and> string_truthy (REPLICATE_MODEL_VERSION e) \<and>
    http_post e predictions_url (request_body (the (REPLICATE_MODEL_VERSION e)) dataUrl)
      (request_headers (the (REPLICATE_API_TOKEN e))) = Inr data \<and>
    (if truthy (predictionUrl data)
       then poll_loop e (predictionUrl data) (request_headers (the (REPLICATE_API_TOKEN e))) data 0 0
       else Inr (data, 0, 0)) = Inr (pred, tries, waited) \<and>
    member pred ''status'' = Inr status \<and> status \<noteq> JStr ''failed'' \<and>
    (\<forall>t \<in> strings_of (get pred ''output''). \<not> mask_rule t)"
  then have none: "findMaskUrl (get pred ''output'') = None"
    by (intro findMaskUrl_none) (simp add: accepts_iff_rule)
  from a have out: "member pred ''output'' = Inr (get pred ''output'')"
    by (intro member_output) blast
  from a none out show "runModelVersion e dataUrl = Inr \<lparr>prediction = pred, maskUrl = None\<rparr>"
    by (simp add: runModelVersion_def Let_def)
qed

theorem mask_rule_and_null_result_witness:
  "mask_rule ''https://replicate.delivery/m.webp?sig=1'' \<and>
   mask_rule ''data:image/png;base64,AA'' \<and>
   findMaskUrl (JArr [JStr ''rice'', JStr ''ftp://host/m.png'', JStr ''https://host/m.gif'']) = None \<and>
   runModelVersion labels_only ''data:image/png;base64,AA'' =
     Inr \<lparr>prediction =
            JObj [(''status'', JStr ''succeeded''),
                  (''output'', JArr [JStr ''rice'', JObj [(''confidence'', JNum 0.9),
                                                       (''file'', JStr ''mask.png'')]])],
          maskUrl = None\<rparr>"
proof -
  let ?pred = "JObj [(''status'', JStr ''succeeded''),
                  (''output'', JArr [JStr ''rice'', JObj [(''confidence'', JNum 0.9),
                                                       (''file'', JStr ''mask.png'')]])]"
  let ?arr = "JArr [JStr ''rice'', JStr ''ftp://host/m.png'', JStr ''https://host/m.gif'']"
  have a1: "findMaskUrl (JArr [JStr ''https://replicate.delivery/m.webp?sig=1''])
              = Some ''https://replicate.delivery/m.webp?sig=1''"
    by (simp add: accepts_def startsWith_def before_query_def after_last_dot_def image_exts_def)
  have a2: "accepts ''data:image/png;base64,AA''"
    by (simp add: accepts_def startsWith_def)
  have a3: "\<forall>t \<in> strings_of ?arr. \<not> mask_rule t"
    by (simp add: mask_rule_def extension_def trailing_segment_def before_query_def
        after_last_dot_def image_exts_def)
  have a4: "\<forall>t \<in> strings_of (get ?pred ''output''). \<not> mask_rule t"
    by (simp add: mask_rule_def)
  have cfg: "string_truthy (REPLICATE_API_TOKEN labels_only)"
      "string_truthy (REPLICATE_MODEL_VERSION labels_only)"
    by (simp_all add: labels_only_def string_truthy_def)
  have post: "http_post labels_only predictions_url
                (request_body (the (REPLICATE_MODEL_VERSION labels_only)) ''data:image/png;base64,AA'')
                (request_headers (the (REPLICATE_API_TOKEN labels_only))) = Inr ?pred"
    by (simp add: labels_only_def)
  have fin: "(if truthy (predictionUrl ?pred)
                then poll_loop labels_only (predictionUrl ?pred)
                       (request_headers (the (REPLICATE_API_TOKEN labels_only))) ?pred 0 0
                else Inr (?pred, 0, 0)) = Inr (?pred, 0, 0)"
    by (simp add: predictionUrl_def js_and_def)
  have st: "member ?pred ''status'' = Inr (JStr ''succeeded'')" "JStr ''succeeded'' \<noteq> JStr ''failed''"
    by simp_all
  from mask_rule_and_null_result
         [of "''https://replicate.delivery/m.webp?sig=1''"
             "JArr [JStr ''https://replicate.delivery/m.webp?sig=1'']"] a1
  have r1: "mask_rule ''https://replicate.delivery/m.webp?sig=1''" by blast
  from mask_rule_and_null_result [of "''data:image/png;base64,AA''"] a2
  have r2: "mask_rule ''data:image/png;base64,AA''" by blast
  from mask_rule_and_null_result [of _ ?arr] a3
  have r3: "findMaskUrl ?arr = None" by blast
  from mask_rule_and_null_result
         [of _ _ labels_only "''data:image/png;base64,AA''" ?pred ?pred 0 0 "JStr ''succeeded''"]
       cfg post fin st a4
  have r4: "runModelVersion labels_only ''data:image/png;base64,AA''
              = Inr \<lparr>prediction = ?pred, maskUrl = None\<rparr>" by blast
  from r1 r2 r3 r4 show ?thesis by blast
qed

section \<open>The portion estimator: claims\<close>

lemma density_reply_09: "density_from_text ''0.9'' = 0.9"
  by (simp add: density_from_text_def regex_match_def is_digit_def parseFloat_def decimal_def
      digit_value_def)

lemma rice_values:
  "toFixed server_plateAreaCm2 2 = 490.87"
  "toFixed (server_estimatedVolumeMl 0.30) 2 = 368.16"
  "toFixed (rawPortionGrams 0.30 0.9) 1 = 331.3"
  "toFixed 0.9 2 = 0.9"
  by (simp_all add: toFixed_def rawPortionGrams_def server_estimatedVolumeMl_def
      server_plateAreaCm2_def Math_PI_def defaultPlateDiameterCm_def defaultHeightCm_def
      floor_eq_iff power2_eq_square)

lemma truthy_get: "truthy (get body k) \<Longrightarrow> body \<noteq> JUndefined \<and> body \<noteq> JNull"
  by (cases body) auto

text \<open>
  Claim C2, as amended. For a request with the food name \<^verbatim>\<open>"rice"\<close>, the pixel
  fraction 0.30 and a model reply that parses to the density 0.9, the handler answers,
  with the default plate of 25 cm and 2.5 cm, \<open>plateAreaCm2 = 490.87\<close>,
  \<open>estimatedVolumeMl = 368.16\<close> and \<open>portionEstimate_g = 331.3\<close>: the volume is
  fraction times area times height, \<open>0.30 \<times> 490.87\<dots> \<times> 2.5\<close>.
\<close>

theorem rice_scenario:
  assumes "truthy (get body ''imageBase64'')" and "truthy (get body ''maskUrl'')"
    and "get body ''foodName'' = JStr ''rice''"
    and "get body ''pixelFraction'' = JNum 0.30"
    and "chat (JStr ''rice'') = Inr out" and "density_from_text out = 0.9"
  shows "estimate_portion chat body =
           Inr \<lparr>foodName = JStr ''rice'', pixelFraction = 0.30,
                plateAssumptions =
                  \<lparr>plateDiameterCm = 25, assumedHeightCm = 2.5, plateAreaCm2 = 490.87\<rparr>,
                estimatedVolumeMl = 368.16, density_g_per_ml = 0.9,
                portionEstimate_g = 331.3\<rparr>"
proof -
  from assms(1) have "body \<noteq> JUndefined \<and> body \<noteq> JNull" by (rule truthy_get)
  moreover have "valid_fraction (JNum 0.30) = Some 0.30"
    by (simp add: valid_fraction_def)
  moreover have "getDensityEstimateFromOpenAI chat (JStr ''rice'') = Inr 0.9"
    using assms(5,6) by (simp add: getDensityEstimateFromOpenAI_def)
  ultimately show ?thesis
    using assms(1-4) rice_values
    by (simp add: estimate_portion_def defaultPlateDiameterCm_def defaultHeightCm_def)
qed

theorem rice_scenario_witness:
  "estimate_portion rice_chat rice_request =
     Inr \<lparr>foodName = JStr ''rice'', pixelFraction = 0.30,
          plateAssumptions =
            \<lparr>plateDiameterCm = 25, assumedHeightCm = 2.5, plateAreaCm2 = 490.87\<rparr>,
          estimatedVolumeMl = 368.16, density_g_per_ml = 0.9,
          portionEstimate_g = 331.3\<rparr>"
proof -
  have "truthy (get rice_request ''imageBase64'')" "truthy (get rice_request ''maskUrl'')"
    "get rice_request ''foodName'' = JStr ''rice''"
    "get rice_request ''pixelFraction'' = JNum 0.30"
    "rice_chat (JStr ''rice'') = Inr ''0.9''"
    by (simp_all add: rice_request_def rice_chat_def)
  from rice_scenario [of rice_request rice_chat "''0.9''", OF this density_reply_09]
  show ?thesis .
qed

text \<open>
  The figures of claim C2 as it is written, 147.26 ml and 132.5 g, leave the height
  factor 2.5 out; the handler does not answer with them.
\<close>

theorem rice_scenario_counterexample:
  "estimate_portion rice_chat rice_request \<noteq>
     Inr \<lparr>foodName = JStr ''rice'', pixelFraction = 0.30,
          plateAssumptions =
            \<lparr>plateDiameterCm = 25, assumedHeightCm = 2.5, plateAreaCm2 = 490.87\<rparr>,
          estimatedVolumeMl = 147.26, density_g_per_ml = 0.9,
          portionEstimate_g = 132.5\<rparr>"
  using density_reply_09 rice_values
  by (simp add: estimate_portion_def rice_request_def rice_chat_def valid_fraction_def
      getDensityEstimateFromOpenAI_def)

lemma estimate_portion_success:
  assumes "truthy (get body ''imageBase64'')" and "truthy (get body ''maskUrl'')"
    and "truthy (get body ''foodName'')"
    and "get body ''pixelFraction'' = JNum pf" and "0 < pf" and "pf \<le> 1"
    and "chat (get body ''foodName'') = Inr out"
  shows "estimate_portion chat body =
           Inr \<lparr>foodName = get body ''foodName'', pixelFraction = pf,
                plateAssumptions =
                  \<lparr>plateDiameterCm = 25, assumedHeightCm = 2.5,
                   plateAreaCm2 = toFixed server_plateAreaCm2 2\<rparr>,
                estimatedVolumeMl = toFixed (server_estimatedVolumeMl pf) 2,
                density_g_per_ml = toFixed (density_from_text out) 2,
                portionEstimate_g = toFixed (rawPortionGrams pf (density_from_text out)) 1\<rparr>"
proof -
  from assms(1) have "body \<noteq> JUndefined \<and> body \<noteq> JNull" by (rule truthy_get)
  moreover have "valid_fraction (JNum pf) = Some pf"
    using assms(5,6) by (simp add: valid_fraction_def)
  ultimately show ?thesis
    using assms(1-4,7)
    by (simp add: estimate_portion_def getDensityEstimateFromOpenAI_def
        defaultPlateDiameterCm_def defaultHeightCm_def)
qed

lemma Math_PI_pos: "0 < Math_PI"
  by (simp add: Math_PI_def)

text \<open>
  Claim C5. When the \<^verbatim>\<open>pixelFraction\<close> of the request is not a number in \<open>(0, 1]\<close>, be
  it a number at or below 0 or above 1, absent, or no number at all, the handler answers
  with an error and no estimate, and never calls the density model: with the three other
  fields present the answer is status 400 with the message about the pixel fraction;
  otherwise it is status 400 for the missing fields, or status 500 when there is no body.
\<close>

theorem invalid_fraction_rejected:
  assumes "\<forall>x. get body ''pixelFraction'' = JNum x \<longrightarrow> x \<le> 0 \<or> 1 < x"
  shows "(\<exists>f. estimate_portion chat body = Inl f) \<and>
         (estimate_portion chat body = Inl (Status400
            ''Missing pixelFraction. Frontend should compute mask pixel fraction and send it.'') \<or>
          estimate_portion chat body =
            Inl (Status400 ''Missing fields (imageBase64, maskUrl, foodName)'') \<or>
          estimate_portion chat body = Inl (Status500 TypeError)) \<and>
         (truthy (get body ''imageBase64'') \<and> truthy (get body ''maskUrl'') \<and>
          truthy (get body ''foodName'')
            \<longrightarrow> estimate_portion chat body = Inl (Status400
                  ''Missing pixelFraction. Frontend should compute mask pixel fraction and send it.''))"
proof -
  have "valid_fraction (get body ''pixelFraction'') = None"
    using assms by (cases "get body ''pixelFraction''") (auto simp: valid_fraction_def)
  then show ?thesis
    by (auto simp: estimate_portion_def)
qed

theorem invalid_fraction_rejected_witness:
  "estimate_portion rice_chat oversized_request = Inl (Status400
     ''Missing pixelFraction. Frontend should compute mask pixel fraction and send it.'') \<and>
   estimate_portion rice_chat unmeasured_request = Inl (Status400
     ''Missing pixelFraction. Frontend should compute mask pixel fraction and send it.'')"
proof -
  have 1: "\<forall>x. get oversized_request ''pixelFraction'' = JNum x \<longrightarrow> x \<le> 0 \<or> 1 < x"
    by (simp add: oversized_request_def)
  have 2: "\<forall>x. get unmeasured_request ''pixelFraction'' = JNum x \<longrightarrow> x \<le> 0 \<or> 1 < x"
    by (simp add: unmeasured_request_def)
  have f1: "truthy (get oversized_request ''imageBase64'') \<and>
            truthy (get oversized_request ''maskUrl'') \<and> truthy (get oversized_request ''foodName'')"
    by (simp add: oversized_request_def)
  have f2: "truthy (get unmeasured_request ''imageBase64'') \<and>
            truthy (get unmeasured_request ''maskUrl'') \<and> truthy (get unmeasured_request ''foodName'')"
    by (simp add: unmeasured_request_def)
  from invalid_fraction_rejected [OF 1, of rice_chat] f1
       invalid_fraction_rejected [OF 2, of rice_chat] f2
  show ?thesis by blast
qed

text \<open>
  Claim C10. Called with no options, the helper of utils/portion.js computes the plate
  area, the volume and, through \<^verbatim>\<open>rawGramsForDensity\<close>, the unrounded grams of the
  handler's own arithmetic, for every pixel fraction and density; so a successful answer
  of the handler carries the helper's values, rounded.
\<close>

theorem helper_agrees_with_server:
  "math_plateAreaCm2 (estimatePortionFromMaskFraction pf no_opts) = server_plateAreaCm2 \<and>
   math_estimatedVolumeMl (estimatePortionFromMaskFraction pf no_opts)
     = server_estimatedVolumeMl pf \<and>
   rawGramsForDensity (estimatePortionFromMaskFraction pf no_opts) density
     = rawPortionGrams pf density \<and>
   (truthy (get body ''imageBase64'') \<and> truthy (get body ''maskUrl'') \<and>
    truthy (get body ''foodName'') \<and> get body ''pixelFraction'' = JNum pf \<and>
    0 < pf \<and> pf \<le> 1 \<and> chat (get body ''foodName'') = Inr out
      \<longrightarrow> estimate_portion chat body =
            (let m = estimatePortionFromMaskFraction pf no_opts
             in Inr \<lparr>foodName = get body ''foodName'', pixelFraction = pf,
                     plateAssumptions =
                       \<lparr>plateDiameterCm = 25, assumedHeightCm = 2.5,
                        plateAreaCm2 = toFixed (math_plateAreaCm2 m) 2\<rparr>,
                     estimatedVolumeMl = toFixed (math_estimatedVolumeMl m) 2,
                     density_g_per_ml = toFixed (density_from_text out) 2,
                     portionEstimate_g =
                       toFixed (rawGramsForDensity m (density_from_text out)) 1\<rparr>))"
proof -
  have a: "math_plateAreaCm2 (estimatePortionFromMaskFraction pf no_opts) = server_plateAreaCm2"
    by (simp add: estimatePortionFromMaskFraction_def no_opts_def or_default_def Let_def
        server_plateAreaCm2_def defaultPlateDiameterCm_def)
  have v: "math_estimatedVolumeMl (estimatePortionFromMaskFraction pf no_opts)
             = server_estimatedVolumeMl pf"
    by (simp add: estimatePortionFromMaskFraction_def no_opts_def or_default_def Let_def
        server_estimatedVolumeMl_def server_plateAreaCm2_def defaultPlateDiameterCm_def
        defaultHeightCm_def)
  have g: "rawGramsForDensity (estimatePortionFromMaskFraction pf no_opts) y
             = rawPortionGrams pf y" for y
    by (simp add: estimatePortionFromMaskFraction_def no_opts_def or_default_def Let_def
        rawPortionGrams_def server_estimatedVolumeMl_def server_plateAreaCm2_def
        defaultPlateDiameterCm_def defaultHeightCm_def)
  show ?thesis
    unfolding Let_def a v g
    by (intro conjI impI refl estimate_portion_success) simp_all
qed

theorem helper_agrees_with_server_witness:
  "toFixed (math_plateAreaCm2 (estimatePortionFromMaskFraction 0.30 no_opts)) 2 = 490.87 \<and>
   toFixed (math_estimatedVolumeMl (estimatePortionFromMaskFraction 0.30 no_opts)) 2 = 368.16 \<and>
   toFixed (rawGramsForDensity (estimatePortionFromMaskFraction 0.30 no_opts) 0.9) 1 = 331.3 \<and>
   estimate_portion rice_chat rice_request =
     Inr \<lparr>foodName = JStr ''rice'', pixelFraction = 0.30,
          plateAssumptions =
            \<lparr>plateDiameterCm = 25, assumedHeightCm = 2.5,
             plateAreaCm2 = toFixed (math_plateAreaCm2 (estimatePortionFromMaskFraction 0.30 no_opts)) 2\<rparr>,
          estimatedVolumeMl = toFixed (math_estimatedVolumeMl (estimatePortionFromMaskFraction 0.30 no_opts)) 2,
          density_g_per_ml = 0.9,
          portionEstimate_g = toFixed (rawGramsForDensity (estimatePortionFromMaskFraction 0.30 no_opts) 0.9) 1\<rparr>"
proof -
  have req: "truthy (get rice_request ''imageBase64'') \<and> truthy (get rice_request ''maskUrl'') \<and>
    truthy (get rice_request ''foodName'') \<and> get rice_request ''pixelFraction'' = JNum 0.30 \<and>
    (0::real) < 0.30 \<and> (0.30::real) \<le> 1 \<and> rice_chat (get rice_request ''foodName'') = Inr ''0.9''"
    by (simp add: rice_request_def rice_chat_def)
  have name: "get rice_request ''foodName'' = JStr ''rice''"
    by (simp add: rice_request_def)
  from helper_agrees_with_server [of "0.30" "0.9" rice_request rice_chat "''0.9''"] req
  show ?thesis
    using rice_values density_reply_09 name by (simp add: Let_def)
qed

section \<open>The portion arithmetic on doubles: claims\<close>

lemma round_even_bounds:
  "real_of_int (round_even q) \<le> q + 1 / 2" "q - 1 / 2 \<le> real_of_int (round_even q)"
  unfolding round_even_def Let_def by (auto; linarith)+

lemma round_even_of_int: "round_even (of_int n) = n"
  by (simp add: round_even_def)

lemma round_even_zero: "round_even 0 = 0"
  by (simp add: round_even_def)

lemma round_even_mono:
  assumes "q \<le> q'"
  shows "round_even q \<le> round_even q'"
proof (cases "q = q'")
  case True
  then show ?thesis by simp
next
  case False
  with assms have "q < q'" by simp
  have "real_of_int (round_even q) \<le> q + 1 / 2" by (rule round_even_bounds)
  also have "\<dots> < q' + 1 / 2" using \<open>q < q'\<close> by simp
  also have "\<dots> \<le> real_of_int (round_even q') + 1"
    using round_even_bounds(2) [of q'] by simp
  finally have "real_of_int (round_even q) < real_of_int (round_even q' + 1)" by simp
  then have "round_even q < round_even q' + 1" by (simp only: of_int_less_iff)
  then show ?thesis by simp
qed

lemma round_even_eq:
  "real_of_int m - 1 / 2 < q \<Longrightarrow> q < real_of_int m + 1 / 2 \<Longrightarrow> round_even q = m"
proof -
  assume a: "real_of_int m - 1 / 2 < q" "q < real_of_int m + 1 / 2"
  have "real_of_int (round_even q) < real_of_int m + 1"
    using round_even_bounds(1) [of q] a(2) by linarith
  moreover have "real_of_int m - 1 < real_of_int (round_even q)"
    using round_even_bounds(2) [of q] a(1) by linarith
  ultimately have "round_even q < m + 1" "m - 1 < round_even q"
    by linarith+
  then show ?thesis by simp
qed

lemma binade_upper:
  assumes "0 < a"
  shows "a < 2 powi (binade a + 1)"
proof -
  have "a < 2 powr (real_of_int \<lfloor>log 2 a\<rfloor> + 1)"
    using assms floor_log_eq_powr_iff [of a 2 "\<lfloor>log 2 a\<rfloor>"] by simp
  also have "\<dots> = 2 powi (\<lfloor>log 2 a\<rfloor> + 1)"
    using powr_real_of_int' [of 2 "\<lfloor>log 2 a\<rfloor> + 1"] by simp
  also have "\<dots> \<le> 2 powi (binade a + 1)"
    by (intro power_int_increasing) (simp_all add: binade_def)
  finally show ?thesis .
qed

lemma binade_lower:
  assumes "0 < a" and "- 1022 < binade a"
  shows "2 powi binade a \<le> a"
proof -
  from assms(2) have b: "binade a = \<lfloor>log 2 a\<rfloor>" by (simp add: binade_def max_def split: if_splits)
  have "2 powr real_of_int \<lfloor>log 2 a\<rfloor> \<le> a"
    using assms(1) floor_log_eq_powr_iff [of a 2 "\<lfloor>log 2 a\<rfloor>"] by simp
  then show ?thesis
    using powr_real_of_int' [of 2 "\<lfloor>log 2 a\<rfloor>"] b by simp
qed

lemma binade_mono:
  assumes "0 < a" and "a \<le> b"
  shows "binade a \<le> binade b"
proof -
  from assms have "log 2 a \<le> log 2 b" by (intro log_mono) simp_all
  then have "\<lfloor>log 2 a\<rfloor> \<le> \<lfloor>log 2 b\<rfloor>" by (rule floor_mono)
  then show ?thesis by (simp add: binade_def)
qed

lemma binade_eq:
  assumes "0 < a" and "2 powi k \<le> a" and "a < 2 powi (k + 1)" and "- 1022 \<le> k"
  shows "binade a = k"
proof -
  have "2 powr real_of_int k \<le> a" "a < 2 powr (real_of_int k + 1)"
    using assms(2,3) powr_real_of_int' [of 2 k] powr_real_of_int' [of 2 "k + 1"] by simp_all
  then have "\<lfloor>log 2 a\<rfloor> = k"
    using assms(1) floor_log_eq_powr_iff [of a 2 k] by simp
  with assms(4) show ?thesis by (simp add: binade_def)
qed

lemma nearest_nonneg: "0 \<le> x \<Longrightarrow> 0 \<le> nearest x"
proof -
  assume x: "0 \<le> x"
  show ?thesis
  proof (cases "x = 0")
    case True
    then show ?thesis by (simp add: nearest_def)
  next
    case False
    with x have pos: "0 < x" by simp
    let ?u = "(2::real) powi (binade \<bar>x\<bar> - 52)"
    have u: "0 < ?u" by simp
    have "0 \<le> \<bar>x\<bar> / ?u" using u by simp
    then have "round_even 0 \<le> round_even (\<bar>x\<bar> / ?u)"
      by (rule round_even_mono)
    then have "0 \<le> round_even (\<bar>x\<bar> / ?u)" by (simp only: round_even_zero)
    with pos u show ?thesis by (simp add: nearest_def)
  qed
qed

lemma nearest_pos_unfold:
  "0 < x \<Longrightarrow> nearest x = of_int (round_even (x / 2 powi (binade x - 52))) * 2 powi (binade x - 52)"
  by (simp add: nearest_def)

lemma nearest_le_top:
  assumes "0 < x"
  shows "nearest x \<le> 2 powi (binade x + 1)"
proof -
  let ?e = "binade x"
  let ?u = "(2::real) powi (?e - 52)"
  have u: "0 < ?u" by simp
  have top: "(2::real) powi (?e + 1) = 2 ^ 53 * ?u"
    using power_int_add [of "2::real" 53 "?e - 52"] by (simp add: add.commute)
  have "x / ?u \<le> 2 powi (?e + 1) / ?u"
    using binade_upper [OF assms] u by (simp add: divide_right_mono)
  also have "\<dots> = real_of_int (2 ^ 53)" using u top by simp
  finally have "round_even (x / ?u) \<le> round_even (real_of_int (2 ^ 53))"
    by (rule round_even_mono)
  then have "round_even (x / ?u) \<le> 2 ^ 53" by (simp only: round_even_of_int)
  then have "real_of_int (round_even (x / ?u)) \<le> 2 ^ 53"
    by (metis of_int_le_iff of_int_numeral of_int_power)
  then have "real_of_int (round_even (x / ?u)) * ?u \<le> 2 ^ 53 * ?u"
    using u by (simp add: mult_right_mono)
  with top show ?thesis by (simp add: nearest_pos_unfold [OF assms])
qed

lemma nearest_ge_bottom:
  assumes "0 < x" and "- 1022 < binade x"
  shows "2 powi binade x \<le> nearest x"
proof -
  let ?e = "binade x"
  let ?u = "(2::real) powi (?e - 52)"
  have u: "0 < ?u" by simp
  have bot: "(2::real) powi ?e = 2 ^ 52 * ?u"
    using power_int_add [of "2::real" 52 "?e - 52"] by simp
  have "real_of_int (2 ^ 52) = 2 powi ?e / ?u" using u bot by simp
  also have "\<dots> \<le> x / ?u"
    using binade_lower [OF assms] u by (simp add: divide_right_mono)
  finally have "round_even (real_of_int (2 ^ 52)) \<le> round_even (x / ?u)"
    by (rule round_even_mono)
  then have "2 ^ 52 \<le> round_even (x / ?u)" by (simp only: round_even_of_int)
  then have "2 ^ 52 \<le> real_of_int (round_even (x / ?u))"
    by (metis of_int_le_iff of_int_numeral of_int_power)
  then have "2 ^ 52 * ?u \<le> real_of_int (round_even (x / ?u)) * ?u"
    using u by (simp add: mult_right_mono)
  with bot show ?thesis by (simp add: nearest_pos_unfold [OF assms(1)])
qed

lemma nearest_mono:
  assumes "0 \<le> x" and "x \<le> y"
  shows "nearest x \<le> nearest y"
proof (cases "x = 0")
  case True
  with assms nearest_nonneg [of y] show ?thesis by (simp add: nearest_def)
next
  case False
  with assms have x: "0 < x" and y: "0 < y" by simp_all
  have e: "binade x \<le> binade y" using x assms(2) by (rule binade_mono)
  show ?thesis
  proof (cases "binade x = binade y")
    case True
    let ?u = "(2::real) powi (binade y - 52)"
    have u: "0 < ?u" by simp
    have "x / ?u \<le> y / ?u" using assms(2) u by (simp add: divide_right_mono)
    then have "round_even (x / ?u) \<le> round_even (y / ?u)" by (rule round_even_mono)
    then have "real_of_int (round_even (x / ?u)) * ?u \<le> real_of_int (round_even (y / ?u)) * ?u"
      using u by (simp add: mult_right_mono)
    then show ?thesis
      by (simp add: nearest_pos_unfold [OF x] nearest_pos_unfold [OF y] True)
  next
    case False
    with e have lt: "binade x < binade y" by simp
    have "- 1022 \<le> binade x" by (simp add: binade_def)
    with lt have "- 1022 < binade y" by simp
    have "nearest x \<le> 2 powi (binade x + 1)" using x by (rule nearest_le_top)
    also have "\<dots> \<le> 2 powi binade y"
      using lt by (intro power_int_increasing) simp_all
    also have "\<dots> \<le> nearest y" using y \<open>- 1022 < binade y\<close> by (rule nearest_ge_bottom)
    finally show ?thesis .
  qed
qed

lemma fl_mono:
  assumes "0 \<le> x" and "x \<le> y"
  shows "dle (fl x) (fl y)" and "nonneg (fl x)"
proof -
  have n: "nearest x \<le> nearest y" using assms by (rule nearest_mono)
  have p: "0 \<le> nearest x" using assms(1) by (rule nearest_nonneg)
  from n p show "dle (fl x) (fl y)" by (simp add: fl_def)
  from p show "nonneg (fl x)" by (simp add: fl_def)
qed

lemma dmul_mono_left:
  assumes "nonneg a" and "nonneg a'" and "dle a a'" and "0 < c"
  shows "dle (dmul a (Finite c)) (dmul a' (Finite c))"
proof (cases a)
  case (Finite x)
  show ?thesis
  proof (cases a')
    case a': (Finite y)
    from assms Finite a' have "0 \<le> x * c" "x * c \<le> y * c" by (simp_all add: mult_right_mono)
    then show ?thesis using Finite a' by (simp add: fl_mono)
  next
    case PosInf
    from assms Finite have "0 \<le> x * c" by simp
    from fl_mono(2) [OF this order_refl] have "nonneg (fl (x * c))" .
    with Finite PosInf assms(4) show ?thesis by (cases "fl (x * c)") simp_all
  qed (use assms in simp_all)
next
  case PosInf
  with assms show ?thesis by (cases a') simp_all
qed (use assms in simp_all)

lemma dmul_nonneg:
  assumes "nonneg a" and "0 < c"
  shows "nonneg (dmul a (Finite c))"
proof (cases a)
  case (Finite x)
  with assms have "0 \<le> x * c" by simp
  from fl_mono(2) [OF this order_refl] Finite show ?thesis by simp
qed (use assms in simp_all)

lemma dmul_mono_right:
  assumes "nonneg a" and "0 < c" and "c \<le> c'"
  shows "dle (dmul a (Finite c)) (dmul a (Finite c'))"
proof (cases a)
  case (Finite x)
  with assms have "0 \<le> x * c" "x * c \<le> x * c'" by (simp_all add: mult_left_mono)
  then show ?thesis using Finite by (simp add: fl_mono)
qed (use assms in simp_all)

lemma dmul_commute: "dmul a b = dmul b a"
  by (cases a; cases b) (simp_all add: mult.commute)

lemma round_even_tie:
  "q = real_of_int n + 1 / 2 \<Longrightarrow> round_even q = (if even n then n else n + 1)"
proof -
  assume q: "q = real_of_int n + 1 / 2"
  have "\<lfloor>real_of_int n + 1 / 2\<rfloor> = n" by (simp add: floor_eq_iff)
  with q show ?thesis by (simp add: round_even_def Let_def)
qed

lemma fl_eval:
  assumes "0 < x" and "2 powi k \<le> x" and "x < 2 powi (k + 1)" and "- 1022 \<le> k"
    and "round_even (x / 2 powi (k - 52)) = m"
    and "real_of_int m * 2 powi (k - 52) < 2 ^ 1024"
  shows "fl x = Finite (real_of_int m * 2 powi (k - 52))"
proof -
  have b: "binade x = k" using assms(1-4) by (rule binade_eq)
  have n: "nearest x = real_of_int m * 2 powi (k - 52)"
    using assms(1,5) b by (simp add: nearest_pos_unfold)
  have "0 \<le> nearest x" using assms(1) by (intro nearest_nonneg) simp
  with n assms(6) show ?thesis by (simp add: fl_def)
qed

lemma nearest_minus: "nearest (- x) = - nearest x"
  by (simp add: nearest_def sgn_minus)

lemma fl_eval_neg:
  assumes "fl x = Finite r"
  shows "fl (- x) = Finite (- r)"
proof -
  from assms have "nearest x = r" "nearest x < 2 ^ 1024" "- (2 ^ 1024) < nearest x"
    by (auto simp: fl_def split: if_splits)
  then show ?thesis by (simp add: fl_def nearest_minus)
qed

lemma fl_never_NaN: "fl x \<noteq> NaN"
  by (simp add: fl_def)

lemma Math_pow2_nonneg: "x \<noteq> NaN \<Longrightarrow> nonneg (Math_pow2 x)"
proof (cases x)
  case (Finite r)
  have "0 \<le> r * r" by simp
  from fl_mono(2) [OF this order_refl] Finite show ?thesis by (simp add: Math_pow2_def)
qed (simp_all add: Math_pow2_def)

lemma plate_area_nonneg: "nonneg (dmul (Finite Math_PI) (Math_pow2 (fl x)))"
proof -
  have "nonneg (dmul (Math_pow2 (fl x)) (Finite Math_PI))"
    using Math_pow2_nonneg [OF fl_never_NaN] Math_PI_pos by (rule dmul_nonneg)
  then show ?thesis by (simp only: dmul_commute [of "Finite Math_PI"])
qed

text \<open>
  The chain of products \<open>((fraction \<times> area) \<times> height) \<times> density\<close> never decreases when
  the fraction or the density grows, for a height above 0.
\<close>

lemma grams_chain_fraction:
  assumes "nonneg area" and "0 < h" and "0 < pf" and "pf \<le> pf'" and "0 < density"
  shows "dle (dmul (dmul (dmul (Finite pf) area) (Finite h)) (Finite density))
             (dmul (dmul (dmul (Finite pf') area) (Finite h)) (Finite density))"
proof -
  from assms(3,4) have pf': "0 < pf'" by simp
  have 1: "dle (dmul area (Finite pf)) (dmul area (Finite pf'))"
    using assms(1,3,4) by (rule dmul_mono_right)
  have n1: "nonneg (dmul area (Finite pf))" "nonneg (dmul area (Finite pf'))"
    using assms(1,3) pf' by (simp_all add: dmul_nonneg)
  have 2: "dle (dmul (dmul area (Finite pf)) (Finite h)) (dmul (dmul area (Finite pf')) (Finite h))"
    using n1 1 assms(2) by (rule dmul_mono_left)
  have n2: "nonneg (dmul (dmul area (Finite pf)) (Finite h))"
    "nonneg (dmul (dmul area (Finite pf')) (Finite h))"
    using n1 assms(2) by (simp_all add: dmul_nonneg)
  have "dle (dmul (dmul (dmul area (Finite pf)) (Finite h)) (Finite density))
            (dmul (dmul (dmul area (Finite pf')) (Finite h)) (Finite density))"
    using n2 2 assms(5) by (rule dmul_mono_left)
  then show ?thesis by (simp only: dmul_commute [of area])
qed

lemma grams_chain_density:
  assumes "nonneg area" and "0 < h" and "0 < pf" and "0 < density" and "density \<le> density'"
  shows "dle (dmul (dmul (dmul (Finite pf) area) (Finite h)) (Finite density))
             (dmul (dmul (dmul (Finite pf) area) (Finite h)) (Finite density'))"
proof -
  have "nonneg (dmul area (Finite pf))"
    using assms(1,3) by (rule dmul_nonneg)
  then have "nonneg (dmul (dmul area (Finite pf)) (Finite h))"
    using assms(2) by (rule dmul_nonneg)
  then have "dle (dmul (dmul (dmul area (Finite pf)) (Finite h)) (Finite density))
                 (dmul (dmul (dmul area (Finite pf)) (Finite h)) (Finite density'))"
    using assms(4,5) by (rule dmul_mono_right)
  then show ?thesis by (simp only: dmul_commute [of area])
qed

lemma fl_half_plate: "fl (25 / 2) = Finite (25 / 2)"
proof -
  have "fl (25 / 2) = Finite (real_of_int 7036874417766400 * 2 powi (3 - 52))"
  proof (rule fl_eval)
    show "round_even (25 / 2 / 2 powi (3 - 52)) = 7036874417766400"
      by (rule round_even_eq) simp_all
  qed simp_all
  then show ?thesis by simp
qed

lemma fl_square_half_plate: "dmul (Finite (25 / 2)) (Finite (25 / 2)) = Finite (625 / 4)"
proof -
  have "fl ((25 / 2) * (25 / 2)) = Finite (real_of_int 5497558138880000 * 2 powi (7 - 52))"
  proof (rule fl_eval)
    show "round_even ((25 / 2) * (25 / 2) / 2 powi (7 - 52)) = 5497558138880000"
      by (rule round_even_eq) simp_all
  qed simp_all
  moreover have "real_of_int 5497558138880000 * 2 powi (7 - 52) = (625 / 4::real)"
    by simp
  ultimately have "fl ((25 / 2) * (25 / 2)) = Finite (625 / 4)"
    by (simp only:)
  then show ?thesis
    by (simp only: dmul.simps)
qed

lemma fl_plate_area: "dmul (Finite (884279719003555 / 281474976710656)) (Finite (625 / 4)) = Finite (2158886032723523 / 4398046511104)"
proof -
  have "fl ((884279719003555 / 281474976710656) * (625 / 4)) = Finite (real_of_int 8635544130894092 * 2 powi (8 - 52))"
  proof (rule fl_eval)
    show "round_even ((884279719003555 / 281474976710656) * (625 / 4) / 2 powi (8 - 52)) = 8635544130894092"
      by (rule round_even_eq) simp_all
  qed simp_all
  moreover have "real_of_int 8635544130894092 * 2 powi (8 - 52) = (2158886032723523 / 4398046511104::real)"
    by simp
  ultimately have "fl ((884279719003555 / 281474976710656) * (625 / 4)) = Finite (2158886032723523 / 4398046511104)"
    by (simp only:)
  then show ?thesis
    by (simp only: dmul.simps)
qed

lemma fl_tie_first: "dmul (Finite (1316472312178649 / 4503599627370496)) (Finite (2158886032723523 / 4398046511104)) = Finite (2524304043331795 / 17592186044416)"
proof -
  have "fl ((1316472312178649 / 4503599627370496) * (2158886032723523 / 4398046511104)) = Finite (real_of_int 5048608086663590 * 2 powi (7 - 52))"
  proof (rule fl_eval)
    show "round_even ((1316472312178649 / 4503599627370496) * (2158886032723523 / 4398046511104) / 2 powi (7 - 52)) = 5048608086663590"
      by (rule round_even_eq) simp_all
  qed simp_all
  moreover have "real_of_int 5048608086663590 * 2 powi (7 - 52) = (2524304043331795 / 17592186044416::real)"
    by simp
  ultimately have "fl ((1316472312178649 / 4503599627370496) * (2158886032723523 / 4398046511104)) = Finite (2524304043331795 / 17592186044416)"
    by (simp only:)
  then show ?thesis
    by (simp only: dmul.simps)
qed

lemma fl_tie_second: "dmul (Finite (5265889248714597 / 18014398509481984)) (Finite (2158886032723523 / 4398046511104)) = Finite (2524304043331795 / 17592186044416)"
proof -
  have "fl ((5265889248714597 / 18014398509481984) * (2158886032723523 / 4398046511104)) = Finite (real_of_int 5048608086663590 * 2 powi (7 - 52))"
  proof (rule fl_eval)
    show "round_even ((5265889248714597 / 18014398509481984) * (2158886032723523 / 4398046511104) / 2 powi (7 - 52)) = 5048608086663590"
      by (rule round_even_eq) simp_all
  qed simp_all
  moreover have "real_of_int 5048608086663590 * 2 powi (7 - 52) = (2524304043331795 / 17592186044416::real)"
    by simp
  ultimately have "fl ((5265889248714597 / 18014398509481984) * (2158886032723523 / 4398046511104)) = Finite (2524304043331795 / 17592186044416)"
    by (simp only:)
  then show ?thesis
    by (simp only: dmul.simps)
qed

lemma fl_tie_volume: "dmul (Finite (2524304043331795 / 17592186044416)) (Finite (5 / 2)) = Finite (394422506770593 / 1099511627776)"
proof -
  have "fl ((2524304043331795 / 17592186044416) * (5 / 2)) = Finite (real_of_int 6310760108329488 * 2 powi (8 - 52))"
  proof (rule fl_eval)
    have "round_even ((2524304043331795 / 17592186044416) * (5 / 2) / 2 powi (8 - 52))
            = (if even (6310760108329487::int) then 6310760108329487 else 6310760108329487 + 1)"
      by (rule round_even_tie) simp
    then show "round_even ((2524304043331795 / 17592186044416) * (5 / 2) / 2 powi (8 - 52)) = 6310760108329488"
      by simp
  qed simp_all
  moreover have "real_of_int 6310760108329488 * 2 powi (8 - 52) = (394422506770593 / 1099511627776::real)"
    by simp
  ultimately have "fl ((2524304043331795 / 17592186044416) * (5 / 2)) = Finite (394422506770593 / 1099511627776)"
    by (simp only:)
  then show ?thesis
    by (simp only: dmul.simps)
qed

lemma fl_tie_grams: "dmul (Finite (394422506770593 / 1099511627776)) (Finite (8106479329266893 / 9007199254740992)) = Finite (5679684097496539 / 17592186044416)"
proof -
  have "fl ((394422506770593 / 1099511627776) * (8106479329266893 / 9007199254740992)) = Finite (real_of_int 5679684097496539 * 2 powi (8 - 52))"
  proof (rule fl_eval)
    show "round_even ((394422506770593 / 1099511627776) * (8106479329266893 / 9007199254740992) / 2 powi (8 - 52)) = 5679684097496539"
      by (rule round_even_eq) simp_all
  qed simp_all
  moreover have "real_of_int 5679684097496539 * 2 powi (8 - 52) = (5679684097496539 / 17592186044416::real)"
    by simp
  ultimately have "fl ((394422506770593 / 1099511627776) * (8106479329266893 / 9007199254740992)) = Finite (5679684097496539 / 17592186044416)"
    by (simp only:)
  then show ?thesis
    by (simp only: dmul.simps)
qed

lemma fl_quarter_area: "dmul (Finite (1 / 4)) (Finite (2158886032723523 / 4398046511104)) = Finite (2158886032723523 / 17592186044416)"
proof -
  have "fl ((1 / 4) * (2158886032723523 / 4398046511104)) = Finite (real_of_int 8635544130894092 * 2 powi (6 - 52))"
  proof (rule fl_eval)
    show "round_even ((1 / 4) * (2158886032723523 / 4398046511104) / 2 powi (6 - 52)) = 8635544130894092"
      by (rule round_even_eq) simp_all
  qed simp_all
  moreover have "real_of_int 8635544130894092 * 2 powi (6 - 52) = (2158886032723523 / 17592186044416::real)"
    by simp
  ultimately have "fl ((1 / 4) * (2158886032723523 / 4398046511104)) = Finite (2158886032723523 / 17592186044416)"
    by (simp only:)
  then show ?thesis
    by (simp only: dmul.simps)
qed

lemma fl_half_area: "dmul (Finite (1 / 2)) (Finite (2158886032723523 / 4398046511104)) = Finite (2158886032723523 / 8796093022208)"
proof -
  have "fl ((1 / 2) * (2158886032723523 / 4398046511104)) = Finite (real_of_int 8635544130894092 * 2 powi (7 - 52))"
  proof (rule fl_eval)
    show "round_even ((1 / 2) * (2158886032723523 / 4398046511104) / 2 powi (7 - 52)) = 8635544130894092"
      by (rule round_even_eq) simp_all
  qed simp_all
  moreover have "real_of_int 8635544130894092 * 2 powi (7 - 52) = (2158886032723523 / 8796093022208::real)"
    by simp
  ultimately have "fl ((1 / 2) * (2158886032723523 / 4398046511104)) = Finite (2158886032723523 / 8796093022208)"
    by (simp only:)
  then show ?thesis
    by (simp only: dmul.simps)
qed

lemma fl_quarter_volume: "dmul (Finite (2158886032723523 / 17592186044416)) (Finite 3) = Finite (6476658098170569 / 17592186044416)"
proof -
  have "fl ((2158886032723523 / 17592186044416) * 3) = Finite (real_of_int 6476658098170569 * 2 powi (8 - 52))"
  proof (rule fl_eval)
    show "round_even ((2158886032723523 / 17592186044416) * 3 / 2 powi (8 - 52)) = 6476658098170569"
      by (rule round_even_eq) simp_all
  qed simp_all
  moreover have "real_of_int 6476658098170569 * 2 powi (8 - 52) = (6476658098170569 / 17592186044416::real)"
    by simp
  ultimately have "fl ((2158886032723523 / 17592186044416) * 3) = Finite (6476658098170569 / 17592186044416)"
    by (simp only:)
  then show ?thesis
    by (simp only: dmul.simps)
qed

lemma fl_half_volume: "dmul (Finite (2158886032723523 / 8796093022208)) (Finite 3) = Finite (6476658098170569 / 8796093022208)"
proof -
  have "fl ((2158886032723523 / 8796093022208) * 3) = Finite (real_of_int 6476658098170569 * 2 powi (9 - 52))"
  proof (rule fl_eval)
    show "round_even ((2158886032723523 / 8796093022208) * 3 / 2 powi (9 - 52)) = 6476658098170569"
      by (rule round_even_eq) simp_all
  qed simp_all
  moreover have "real_of_int 6476658098170569 * 2 powi (9 - 52) = (6476658098170569 / 8796093022208::real)"
    by simp
  ultimately have "fl ((2158886032723523 / 8796093022208) * 3) = Finite (6476658098170569 / 8796093022208)"
    by (simp only:)
  then show ?thesis
    by (simp only: dmul.simps)
qed

lemma fl_quarter_grams: "dmul (Finite (6476658098170569 / 17592186044416)) (Finite 1) = Finite (6476658098170569 / 17592186044416)"
proof -
  have "fl ((6476658098170569 / 17592186044416) * 1) = Finite (real_of_int 6476658098170569 * 2 powi (8 - 52))"
  proof (rule fl_eval)
    show "round_even ((6476658098170569 / 17592186044416) * 1 / 2 powi (8 - 52)) = 6476658098170569"
      by (rule round_even_eq) simp_all
  qed simp_all
  moreover have "real_of_int 6476658098170569 * 2 powi (8 - 52) = (6476658098170569 / 17592186044416::real)"
    by simp
  ultimately have "fl ((6476658098170569 / 17592186044416) * 1) = Finite (6476658098170569 / 17592186044416)"
    by (simp only:)
  then show ?thesis
    by (simp only: dmul.simps)
qed

lemma fl_half_grams: "dmul (Finite (6476658098170569 / 8796093022208)) (Finite 1) = Finite (6476658098170569 / 8796093022208)"
proof -
  have "fl ((6476658098170569 / 8796093022208) * 1) = Finite (real_of_int 6476658098170569 * 2 powi (9 - 52))"
  proof (rule fl_eval)
    show "round_even ((6476658098170569 / 8796093022208) * 1 / 2 powi (9 - 52)) = 6476658098170569"
      by (rule round_even_eq) simp_all
  qed simp_all
  moreover have "real_of_int 6476658098170569 * 2 powi (9 - 52) = (6476658098170569 / 8796093022208::real)"
    by simp
  ultimately have "fl ((6476658098170569 / 8796093022208) * 1) = Finite (6476658098170569 / 8796093022208)"
    by (simp only:)
  then show ?thesis
    by (simp only: dmul.simps)
qed

lemma double_plateAreaCm2_value:
  "double_plateAreaCm2 = Finite (2158886032723523 / 4398046511104)"
proof -
  have h: "fl (defaultPlateDiameterCm / 2.0) = Finite (25 / 2)"
    by (simp add: defaultPlateDiameterCm_def fl_half_plate)
  have sq: "Math_pow2 (Finite (25 / 2)) = Finite (625 / 4)"
    unfolding Math_pow2_def by (rule fl_square_half_plate)
  show ?thesis
    unfolding double_plateAreaCm2_def h sq Math_PI_def by (rule fl_plate_area)
qed

lemma helper_default_area:
  "double_area (double_estimatePortionFromMaskFraction pf
      \<lparr>opt_plateDiameterCm = None, opt_heightCm = hopt\<rparr>) = double_plateAreaCm2"
  by (simp add: double_estimatePortionFromMaskFraction_def Let_def or_default_def
      double_plateAreaCm2_def defaultPlateDiameterCm_def)

lemma binade_subnormal:
  assumes "0 < a" and "a < 2 powi (- 1022)"
  shows "binade a = - 1022"
proof -
  have "a < 2 powr real_of_int (- 1022)"
    using assms(2) powr_real_of_int' [of 2 "- 1022"] by simp
  then have "log 2 a < real_of_int (- 1022)"
    using assms(1) by (simp add: log_less_iff)
  then have "\<lfloor>log 2 a\<rfloor> < - 1022" by (simp add: floor_less_iff)
  then show ?thesis by (simp add: binade_def)
qed

lemma fl_eval_subnormal:
  assumes "0 < x" and "x < 2 powi (- 1022)"
    and "round_even (x / 2 powi (- 1074)) = m"
    and "real_of_int m * 2 powi (- 1074) < 2 ^ 1024"
  shows "fl x = Finite (real_of_int m * 2 powi (- 1074))"
proof -
  have b: "binade x = - 1022" using assms(1,2) by (rule binade_subnormal)
  have n: "nearest x = real_of_int m * 2 powi (- 1074)"
    using assms(1,3) b by (simp add: nearest_pos_unfold)
  have "0 \<le> nearest x" using assms(1) by (intro nearest_nonneg) simp
  with n assms(4) show ?thesis by (simp add: fl_def)
qed

lemma nearest_power_of_two:
  assumes "- 1022 \<le> k"
  shows "nearest (2 powi k) = 2 powi k"
proof -
  let ?u = "(2::real) powi (k - 52)"
  have pos: "(0::real) < 2 powi k" by simp
  have "(2::real) powi k < 2 powi (k + 1)"
    by (intro power_int_strict_increasing) simp_all
  with pos assms have b: "binade (2 powi k) = k"
    by (intro binade_eq) simp_all
  have split: "(2::real) powi k = 2 ^ 52 * ?u"
    using power_int_add [of "2::real" 52 "k - 52"] by simp
  have "(2::real) powi k / ?u = real_of_int (2 ^ 52)"
    by (simp add: split)
  then have "round_even ((2::real) powi k / ?u) = 2 ^ 52"
    by (simp only: round_even_of_int)
  then have "nearest (2 powi k) = real_of_int (2 ^ 52) * ?u"
    by (simp only: nearest_pos_unfold [OF pos] b)
  also have "\<dots> = 2 powi k" by (simp add: split)
  finally show ?thesis .
qed

lemma fl_overflow:
  assumes "2 ^ 1024 \<le> x"
  shows "fl x = PosInf"
proof -
  have p: "(2::real) ^ 1024 = 2 powi 1024" by simp
  have "nearest (2 powi 1024) \<le> nearest x"
    using assms unfolding p by (intro nearest_mono) simp_all
  moreover have "nearest (2 powi 1024) = 2 powi 1024"
    by (rule nearest_power_of_two) simp
  ultimately have "2 powi 1024 \<le> nearest x"
    by (simp only:)
  then show ?thesis unfolding fl_def p by simp
qed

lemma fl_even_tie_first: "dmul (Finite (6900747469595291 / 9007199254740992)) (Finite (2158886032723523 / 4398046511104)) = Finite (3308004387628009 / 8796093022208)"
proof -
  have "fl ((6900747469595291 / 9007199254740992) * (2158886032723523 / 4398046511104)) = Finite (real_of_int 6616008775256018 * 2 powi (8 - 52))"
  proof (rule fl_eval)
    show "round_even ((6900747469595291 / 9007199254740992) * (2158886032723523 / 4398046511104) / 2 powi (8 - 52)) = 6616008775256018"
      by (rule round_even_eq) simp_all
  qed simp_all
  moreover have "real_of_int 6616008775256018 * 2 powi (8 - 52) = (3308004387628009 / 8796093022208::real)"
    by simp
  ultimately have "fl ((6900747469595291 / 9007199254740992) * (2158886032723523 / 4398046511104)) = Finite (3308004387628009 / 8796093022208)"
    by (simp only:)
  then show ?thesis
    by (simp only: dmul.simps)
qed

lemma fl_even_tie_volume: "dmul (Finite (3308004387628009 / 8796093022208)) (Finite (5 / 2)) = Finite (4135005484535011 / 4398046511104)"
proof -
  have "fl ((3308004387628009 / 8796093022208) * (5 / 2)) = Finite (real_of_int 8270010969070022 * 2 powi (9 - 52))"
  proof (rule fl_eval)
    have "round_even ((3308004387628009 / 8796093022208) * (5 / 2) / 2 powi (9 - 52))
            = (if even (8270010969070022::int) then 8270010969070022 else 8270010969070022 + 1)"
      by (rule round_even_tie) simp
    then show "round_even ((3308004387628009 / 8796093022208) * (5 / 2) / 2 powi (9 - 52)) = 8270010969070022"
      by simp
  qed simp_all
  moreover have "real_of_int 8270010969070022 * 2 powi (9 - 52) = (4135005484535011 / 4398046511104::real)"
    by simp
  ultimately have "fl ((3308004387628009 / 8796093022208) * (5 / 2)) = Finite (4135005484535011 / 4398046511104)"
    by (simp only:)
  then show ?thesis
    by (simp only: dmul.simps)
qed

lemma fl_whole_area: "dmul (Finite 1) (Finite (2158886032723523 / 4398046511104)) = Finite (2158886032723523 / 4398046511104)"
proof -
  have "fl (1 * (2158886032723523 / 4398046511104)) = Finite (real_of_int 8635544130894092 * 2 powi (8 - 52))"
  proof (rule fl_eval)
    show "round_even (1 * (2158886032723523 / 4398046511104) / 2 powi (8 - 52)) = 8635544130894092"
      by (rule round_even_eq) simp_all
  qed simp_all
  moreover have "real_of_int 8635544130894092 * 2 powi (8 - 52) = (2158886032723523 / 4398046511104::real)"
    by simp
  ultimately have "fl (1 * (2158886032723523 / 4398046511104)) = Finite (2158886032723523 / 4398046511104)"
    by (simp only:)
  then show ?thesis
    by (simp only: dmul.simps)
qed

lemma fl_whole_volume: "dmul (Finite (2158886032723523 / 4398046511104)) (Finite (5 / 2)) = Finite (674651885226101 / 549755813888)"
proof -
  have "fl ((2158886032723523 / 4398046511104) * (5 / 2)) = Finite (real_of_int 5397215081808808 * 2 powi (10 - 52))"
  proof (rule fl_eval)
    have "round_even ((2158886032723523 / 4398046511104) * (5 / 2) / 2 powi (10 - 52))
            = (if even (5397215081808807::int) then 5397215081808807 else 5397215081808807 + 1)"
      by (rule round_even_tie) simp
    then show "round_even ((2158886032723523 / 4398046511104) * (5 / 2) / 2 powi (10 - 52)) = 5397215081808808"
      by simp
  qed simp_all
  moreover have "real_of_int 5397215081808808 * 2 powi (10 - 52) = (674651885226101 / 549755813888::real)"
    by simp
  ultimately have "fl ((2158886032723523 / 4398046511104) * (5 / 2)) = Finite (674651885226101 / 549755813888)"
    by (simp only:)
  then show ?thesis
    by (simp only: dmul.simps)
qed

lemma fl_least_area:
  "dmul (Finite (1 / 2 ^ 1074)) (Finite (2158886032723523 / 4398046511104)) = Finite (491 / 2 ^ 1074)"
proof -
  have "fl (1 / 2 ^ 1074 * (2158886032723523 / 4398046511104)) = Finite (real_of_int 491 * 2 powi (- 1074))"
  proof (rule fl_eval_subnormal)
    show "round_even (1 / 2 ^ 1074 * (2158886032723523 / 4398046511104) / 2 powi (- 1074)) = 491"
      by (rule round_even_eq) (simp_all add: power_int_minus)
  qed (simp_all add: power_int_minus)
  then show ?thesis by (simp add: power_int_minus)
qed

lemma fl_least_volume:
  "dmul (Finite (491 / 2 ^ 1074)) (Finite (5 / 2)) = Finite (1228 / 2 ^ 1074)"
proof -
  have "fl (491 / 2 ^ 1074 * (5 / 2)) = Finite (real_of_int 1228 * 2 powi (- 1074))"
  proof (rule fl_eval_subnormal)
    have "round_even (491 / 2 ^ 1074 * (5 / 2) / 2 powi (- 1074))
            = (if even (1227::int) then 1227 else 1227 + 1)"
      by (rule round_even_tie) (simp add: power_int_minus)
    then show "round_even (491 / 2 ^ 1074 * (5 / 2) / 2 powi (- 1074)) = 1228"
      by simp
  qed (simp_all add: power_int_minus)
  then show ?thesis by (simp add: power_int_minus)
qed

lemma fl_least_grams:
  "dmul (Finite (1228 / 2 ^ 1074)) (Finite (8106479329266893 / 9007199254740992))
     = Finite (1105 / 2 ^ 1074)"
proof -
  have "fl (1228 / 2 ^ 1074 * (8106479329266893 / 9007199254740992))
          = Finite (real_of_int 1105 * 2 powi (- 1074))"
  proof (rule fl_eval_subnormal)
    show "round_even (1228 / 2 ^ 1074 * (8106479329266893 / 9007199254740992) / 2 powi (- 1074))
            = 1105"
      by (rule round_even_eq) (simp_all add: power_int_minus)
  qed (simp_all add: power_int_minus)
  then show ?thesis by (simp add: power_int_minus)
qed

text \<open>
  Three roundings of the handler's chain: a tie that goes to the even neighbour below,
  the smallest positive fraction, whose products are subnormal, and a density that takes
  the grams beyond the largest double.
\<close>

lemma rounding_cases:
  "double_estimatedVolumeMl (6900747469595291 / 9007199254740992)
     = Finite (4135005484535011 / 4398046511104)"
  "double_rawPortionGrams (1 / 2 ^ 1074) (8106479329266893 / 9007199254740992)
     = Finite (1105 / 2 ^ 1074)"
  "double_rawPortionGrams 1 (2 ^ 1014) = PosInf"
proof -
  have hh: "Finite defaultHeightCm = Finite (5 / 2)"
    by (simp add: defaultHeightCm_def)
  show "double_estimatedVolumeMl (6900747469595291 / 9007199254740992)
     = Finite (4135005484535011 / 4398046511104)"
    unfolding double_estimatedVolumeMl_def double_plateAreaCm2_value hh
    by (simp only: fl_even_tie_first fl_even_tie_volume)
  show "double_rawPortionGrams (1 / 2 ^ 1074) (8106479329266893 / 9007199254740992)
     = Finite (1105 / 2 ^ 1074)"
    unfolding double_rawPortionGrams_def double_estimatedVolumeMl_def
      double_plateAreaCm2_value hh
    by (simp only: fl_least_area fl_least_volume fl_least_grams)
  have "double_estimatedVolumeMl 1 = Finite (674651885226101 / 549755813888)"
    unfolding double_estimatedVolumeMl_def double_plateAreaCm2_value hh
    by (simp only: fl_whole_area fl_whole_volume)
  moreover have "(2::real) ^ 1024 \<le> 674651885226101 / 549755813888 * 2 ^ 1014"
    by simp
  ultimately show "double_rawPortionGrams 1 (2 ^ 1014) = PosInf"
    by (simp add: double_rawPortionGrams_def fl_overflow)
qed

text \<open>
  Claim C4, as amended. The handler computes the plate area as the double product
  \<open>Math.PI \<times> (25 / 2)\<^sup>2\<close>, the volume as \<open>(pixelFraction \<times> plateAreaCm2) \<times> 2.5\<close> and
  the grams as volume times density, every product rounded to the nearest double and
  nothing else entering; and the grams never decrease when the pixel fraction grows
  within \<open>(0, 1]\<close> or the density grows above 0. They need not increase: different
  inputs can round to the same grams. The helper of utils/portion.js computes the same
  chain from the plate diameter and height in effect, an absent or zero option giving
  way to 25 and 2.5, and its grams never decrease for a height above 0.
\<close>

theorem portion_grams_rounded_nondecreasing:
  "double_plateAreaCm2 = fl (Math_PI * (25 / 2) ^ 2) \<and>
   double_plateAreaCm2 = Finite (2158886032723523 / 4398046511104) \<and>
   double_estimatedVolumeMl pf = dmul (dmul (Finite pf) double_plateAreaCm2) (Finite 2.5) \<and>
   double_rawPortionGrams pf density = dmul (double_estimatedVolumeMl pf) (Finite density) \<and>
   (0 < pf \<and> pf \<le> pf' \<and> pf' \<le> 1 \<and> 0 < density
      \<longrightarrow> dle (double_rawPortionGrams pf density) (double_rawPortionGrams pf' density)) \<and>
   (0 < pf \<and> pf \<le> 1 \<and> 0 < density \<and> density \<le> density'
      \<longrightarrow> dle (double_rawPortionGrams pf density) (double_rawPortionGrams pf density')) \<and>
   (let d = (case opt_plateDiameterCm options of
               None \<Rightarrow> 25 | Some x \<Rightarrow> if x = 0 then 25 else x);
        h = (case opt_heightCm options of
               None \<Rightarrow> 2.5 | Some x \<Rightarrow> if x = 0 then 2.5 else x);
        m = double_estimatePortionFromMaskFraction pf options;
        m' = double_estimatePortionFromMaskFraction pf' options
    in double_area m = dmul (Finite Math_PI) (dmul (fl (d / 2)) (fl (d / 2))) \<and>
       double_volume m = dmul (dmul (Finite pf) (double_area m)) (Finite h) \<and>
       double_grams m density = dmul (double_volume m) (Finite density) \<and>
       (0 < h \<and> 0 < pf \<and> pf \<le> pf' \<and> pf' \<le> 1 \<and> 0 < density
          \<longrightarrow> dle (double_grams m density) (double_grams m' density)) \<and>
       (0 < h \<and> 0 < pf \<and> pf \<le> 1 \<and> 0 < density \<and> density \<le> density'
          \<longrightarrow> dle (double_grams m density) (double_grams m density')))"
proof (intro conjI impI)
  show av: "double_plateAreaCm2 = Finite (2158886032723523 / 4398046511104)"
    by (rule double_plateAreaCm2_value)
  have "Math_PI * (25 / 2) ^ 2 = 884279719003555 / 281474976710656 * (625 / 4)"
    by (simp add: Math_PI_def power2_eq_square)
  then have "fl (Math_PI * (25 / 2) ^ 2) = Finite (2158886032723523 / 4398046511104)"
    using fl_plate_area by (simp only: dmul.simps)
  with av show "double_plateAreaCm2 = fl (Math_PI * (25 / 2) ^ 2)" by simp
  show "double_estimatedVolumeMl pf = dmul (dmul (Finite pf) double_plateAreaCm2) (Finite 2.5)"
    by (simp add: double_estimatedVolumeMl_def defaultHeightCm_def)
  show "double_rawPortionGrams pf density = dmul (double_estimatedVolumeMl pf) (Finite density)"
    by (simp add: double_rawPortionGrams_def)
next
  have area: "nonneg double_plateAreaCm2"
    unfolding double_plateAreaCm2_def by (rule plate_area_nonneg)
  have h: "(0::real) < defaultHeightCm" by (simp add: defaultHeightCm_def)
  {
    assume "0 < pf \<and> pf \<le> pf' \<and> pf' \<le> 1 \<and> 0 < density"
    then have "0 < pf" "pf \<le> pf'" "0 < density" by simp_all
    from grams_chain_fraction [OF area h this]
    show "dle (double_rawPortionGrams pf density) (double_rawPortionGrams pf' density)"
      by (simp only: double_rawPortionGrams_def double_estimatedVolumeMl_def)
  }
  {
    assume "0 < pf \<and> pf \<le> 1 \<and> 0 < density \<and> density \<le> density'"
    then have "0 < pf" "0 < density" "density \<le> density'" by simp_all
    from grams_chain_density [OF area h this]
    show "dle (double_rawPortionGrams pf density) (double_rawPortionGrams pf density')"
      by (simp only: double_rawPortionGrams_def double_estimatedVolumeMl_def)
  }
next
  define d where "d = or_default (opt_plateDiameterCm options) 25"
  define h where "h = or_default (opt_heightCm options) 2.5"
  define area where "area = dmul (Finite Math_PI) (Math_pow2 (fl (d / 2)))"
  have d: "(case opt_plateDiameterCm options of
               None \<Rightarrow> 25 | Some x \<Rightarrow> if x = 0 then 25 else x) = d"
    by (simp add: d_def or_default_def split: option.splits)
  have h: "(case opt_heightCm options of
               None \<Rightarrow> 2.5 | Some x \<Rightarrow> if x = 0 then 2.5 else x) = h"
    by (simp add: h_def or_default_def split: option.splits)
  have a: "double_area (double_estimatePortionFromMaskFraction x options) = area" for x
    by (simp add: double_estimatePortionFromMaskFraction_def Let_def area_def d_def)
  have v: "double_volume (double_estimatePortionFromMaskFraction x options)
             = dmul (dmul (Finite x) area) (Finite h)" for x
    by (simp add: double_estimatePortionFromMaskFraction_def Let_def area_def d_def h_def)
  have g: "double_grams (double_estimatePortionFromMaskFraction x options) y
             = dmul (dmul (dmul (Finite x) area) (Finite h)) (Finite y)" for x y
    by (simp add: double_estimatePortionFromMaskFraction_def Let_def area_def d_def h_def)
  have nn: "nonneg area"
    unfolding area_def by (rule plate_area_nonneg)
  have m1: "dle (dmul (dmul (dmul (Finite pf) area) (Finite h)) (Finite density))
                (dmul (dmul (dmul (Finite pf') area) (Finite h)) (Finite density))"
    if "0 < h \<and> 0 < pf \<and> pf \<le> pf' \<and> pf' \<le> 1 \<and> 0 < density"
    using that by (intro grams_chain_fraction [OF nn]) simp_all
  have m2: "dle (dmul (dmul (dmul (Finite pf) area) (Finite h)) (Finite density))
                (dmul (dmul (dmul (Finite pf) area) (Finite h)) (Finite density'))"
    if "0 < h \<and> 0 < pf \<and> pf \<le> 1 \<and> 0 < density \<and> density \<le> density'"
    using that by (intro grams_chain_density [OF nn]) simp_all
  have sq: "area = dmul (Finite Math_PI) (dmul (fl (d / 2)) (fl (d / 2)))"
    by (simp add: area_def Math_pow2_def)
  show "let d = (case opt_plateDiameterCm options of
               None \<Rightarrow> 25 | Some x \<Rightarrow> if x = 0 then 25 else x);
        h = (case opt_heightCm options of
               None \<Rightarrow> 2.5 | Some x \<Rightarrow> if x = 0 then 2.5 else x);
        m = double_estimatePortionFromMaskFraction pf options;
        m' = double_estimatePortionFromMaskFraction pf' options
    in double_area m = dmul (Finite Math_PI) (dmul (fl (d / 2)) (fl (d / 2))) \<and>
       double_volume m = dmul (dmul (Finite pf) (double_area m)) (Finite h) \<and>
       double_grams m density = dmul (double_volume m) (Finite density) \<and>
       (0 < h \<and> 0 < pf \<and> pf \<le> pf' \<and> pf' \<le> 1 \<and> 0 < density
          \<longrightarrow> dle (double_grams m density) (double_grams m' density)) \<and>
       (0 < h \<and> 0 < pf \<and> pf \<le> 1 \<and> 0 < density \<and> density \<le> density'
          \<longrightarrow> dle (double_grams m density) (double_grams m density'))"
    unfolding Let_def d h a v g using m1 m2 sq by blast
qed

theorem portion_grams_rounded_nondecreasing_witness:
  "dle (double_rawPortionGrams fraction_below density_0_9)
       (double_rawPortionGrams fraction_above density_0_9) \<and>
   dle (double_rawPortionGrams fraction_below density_0_9)
       (double_rawPortionGrams fraction_below 1) \<and>
   double_area (double_estimatePortionFromMaskFraction fraction_below
       \<lparr>opt_plateDiameterCm = Some 20, opt_heightCm = Some 3\<rparr>)
     = dmul (Finite Math_PI) (dmul (fl (20 / 2)) (fl (20 / 2))) \<and>
   dle (double_grams (double_estimatePortionFromMaskFraction fraction_below
          \<lparr>opt_plateDiameterCm = Some 20, opt_heightCm = Some 3\<rparr>) density_0_9)
       (double_grams (double_estimatePortionFromMaskFraction fraction_above
          \<lparr>opt_plateDiameterCm = Some 20, opt_heightCm = Some 3\<rparr>) density_0_9) \<and>
   double_estimatedVolumeMl (6900747469595291 / 9007199254740992)
     = Finite (4135005484535011 / 4398046511104) \<and>
   double_rawPortionGrams (1 / 2 ^ 1074) density_0_9 = Finite (1105 / 2 ^ 1074) \<and>
   double_rawPortionGrams 1 (2 ^ 1014) = PosInf"
proof -
  have n: "0 < fraction_below \<and> fraction_below \<le> fraction_above \<and> fraction_above \<le> 1 \<and>
           0 < density_0_9"
    "0 < fraction_below \<and> fraction_below \<le> 1 \<and> 0 < density_0_9 \<and> density_0_9 \<le> 1"
    by (simp_all add: fraction_below_def fraction_above_def density_0_9_def)
  have h: "(0::real) < 3 \<and> 0 < fraction_below \<and> fraction_below \<le> fraction_above \<and>
           fraction_above \<le> 1 \<and> 0 < density_0_9"
    using n(1) by simp
  note t = portion_grams_rounded_nondecreasing
         [of fraction_below density_0_9 fraction_above 1
             "\<lparr>opt_plateDiameterCm = Some 20, opt_heightCm = Some 3\<rparr>"]
  from t n(1) have 1: "dle (double_rawPortionGrams fraction_below density_0_9)
       (double_rawPortionGrams fraction_above density_0_9)"
    by blast
  from t n(2) have 2: "dle (double_rawPortionGrams fraction_below density_0_9)
       (double_rawPortionGrams fraction_below 1)"
    by blast
  note helper = t [THEN conjunct2, THEN conjunct2, THEN conjunct2, THEN conjunct2,
      THEN conjunct2, THEN conjunct2, unfolded Let_def]
  have e: "(case opt_plateDiameterCm \<lparr>opt_plateDiameterCm = Some 20, opt_heightCm = Some 3\<rparr> of
              None \<Rightarrow> 25 | Some x \<Rightarrow> if x = 0 then 25 else x) = (20::real)"
    "(case opt_heightCm \<lparr>opt_plateDiameterCm = Some 20, opt_heightCm = Some 3\<rparr> of
              None \<Rightarrow> 2.5 | Some x \<Rightarrow> if x = 0 then 2.5 else x) = (3::real)"
    by simp_all
  from helper [unfolded e] h
  have 3: "double_area (double_estimatePortionFromMaskFraction fraction_below
       \<lparr>opt_plateDiameterCm = Some 20, opt_heightCm = Some 3\<rparr>)
     = dmul (Finite Math_PI) (dmul (fl (20 / 2)) (fl (20 / 2)))"
    and 4: "dle (double_grams (double_estimatePortionFromMaskFraction fraction_below
          \<lparr>opt_plateDiameterCm = Some 20, opt_heightCm = Some 3\<rparr>) density_0_9)
       (double_grams (double_estimatePortionFromMaskFraction fraction_above
          \<lparr>opt_plateDiameterCm = Some 20, opt_heightCm = Some 3\<rparr>) density_0_9)"
    by blast+
  from 1 2 3 4 rounding_cases [folded density_0_9_def] show ?thesis by blast
qed

lemma dmul_neg_right:
  assumes "dmul (Finite a) (Finite b) = Finite r"
  shows "dmul (Finite a) (Finite (- b)) = Finite (- r)"
proof -
  from assms have "fl (a * b) = Finite r" by simp
  then have "fl (- (a * b)) = Finite (- r)" by (rule fl_eval_neg)
  then show ?thesis by simp
qed

lemma dmul_neg_left:
  assumes "dmul (Finite a) (Finite b) = Finite r"
  shows "dmul (Finite (- a)) (Finite b) = Finite (- r)"
proof -
  from assms have "fl (a * b) = Finite r" by simp
  then have "fl (- (a * b)) = Finite (- r)" by (rule fl_eval_neg)
  then show ?thesis by simp
qed

text \<open>
  Claim C4 as it is written fails twice. The neighbouring fractions
  \<^verbatim>\<open>0.2923155744524506\<close> and \<^verbatim>\<open>0.29231557445245065\<close>, both in \<open>(0, 1]\<close>, give with
  the density \<^verbatim>\<open>0.9\<close> the same grams \<^verbatim>\<open>322.8526621510661\<close>, which is not the exact
  product either; and with the height option \<open>-3\<close> the helper's grams fall from
  \<^verbatim>\<open>-368.1553890925539\<close> at the fraction 0.25 to \<^verbatim>\<open>-736.3107781851078\<close> at 0.5.
\<close>

theorem portion_grams_counterexample:
  "0 < fraction_below \<and> fraction_below < fraction_above \<and> fraction_above \<le> 1 \<and>
   0 < density_0_9 \<and>
   double_rawPortionGrams fraction_below density_0_9
     = Finite (5679684097496539 / 17592186044416) \<and>
   double_rawPortionGrams fraction_above density_0_9
     = Finite (5679684097496539 / 17592186044416) \<and>
   5679684097496539 / 17592186044416
     \<noteq> fraction_below * (Math_PI * (25 / 2) ^ 2) * 2.5 * density_0_9 \<and>
   double_grams (double_estimatePortionFromMaskFraction (1 / 4)
       \<lparr>opt_plateDiameterCm = None, opt_heightCm = Some (- 3)\<rparr>) 1
     = Finite (- (6476658098170569 / 17592186044416)) \<and>
   double_grams (double_estimatePortionFromMaskFraction (1 / 2)
       \<lparr>opt_plateDiameterCm = None, opt_heightCm = Some (- 3)\<rparr>) 1
     = Finite (- (6476658098170569 / 8796093022208)) \<and>
   \<not> dle (Finite (- (6476658098170569 / 17592186044416)))
         (Finite (- (6476658098170569 / 8796093022208)))"
proof -
  have hh: "Finite defaultHeightCm = Finite (5 / 2)"
    by (simp add: defaultHeightCm_def)
  have g1: "double_rawPortionGrams fraction_below density_0_9
              = Finite (5679684097496539 / 17592186044416)"
    unfolding double_rawPortionGrams_def double_estimatedVolumeMl_def
      double_plateAreaCm2_value hh fraction_below_def density_0_9_def
    by (simp only: fl_tie_first fl_tie_volume fl_tie_grams)
  have g2: "double_rawPortionGrams fraction_above density_0_9
              = Finite (5679684097496539 / 17592186044416)"
    unfolding double_rawPortionGrams_def double_estimatedVolumeMl_def
      double_plateAreaCm2_value hh fraction_above_def density_0_9_def
    by (simp only: fl_tie_second fl_tie_volume fl_tie_grams)
  have ex: "5679684097496539 / 17592186044416
              \<noteq> fraction_below * (Math_PI * (25 / 2) ^ 2) * 2.5 * density_0_9"
    by (simp add: Math_PI_def power2_eq_square fraction_below_def density_0_9_def)
  have unfold: "double_grams (double_estimatePortionFromMaskFraction x
       \<lparr>opt_plateDiameterCm = None, opt_heightCm = Some (- 3)\<rparr>) y
     = dmul (dmul (dmul (Finite x) double_plateAreaCm2) (Finite (- 3))) (Finite y)" for x y
    using helper_default_area [of x "Some (- 3)"]
    by (simp add: double_estimatePortionFromMaskFraction_def Let_def or_default_def)
  have q1: "double_grams (double_estimatePortionFromMaskFraction (1 / 4)
       \<lparr>opt_plateDiameterCm = None, opt_heightCm = Some (- 3)\<rparr>) 1
     = Finite (- (6476658098170569 / 17592186044416))"
    unfolding unfold double_plateAreaCm2_value
    by (simp only: fl_quarter_area dmul_neg_right [OF fl_quarter_volume]
        dmul_neg_left [OF fl_quarter_grams])
  have q2: "double_grams (double_estimatePortionFromMaskFraction (1 / 2)
       \<lparr>opt_plateDiameterCm = None, opt_heightCm = Some (- 3)\<rparr>) 1
     = Finite (- (6476658098170569 / 8796093022208))"
    unfolding unfold double_plateAreaCm2_value
    by (simp only: fl_half_area dmul_neg_right [OF fl_half_volume]
        dmul_neg_left [OF fl_half_grams])
  have ord: "\<not> dle (Finite (- (6476658098170569 / 17592186044416)))
         (Finite (- (6476658098170569 / 8796093022208)))"
    by simp
  have nums: "0 < fraction_below" "fraction_below < fraction_above" "fraction_above \<le> 1"
    "0 < density_0_9"
    by (simp_all add: fraction_below_def fraction_above_def density_0_9_def)
  from nums g1 g2 ex q1 q2 ord show ?thesis by blast
qed

section \<open>The pixel fraction meter: claims\<close>

lemma count_loop_step:
  assumes "length d = 4 * n" and "k < n"
  shows "count_loop d (4 * k) t m =
           count_loop d (4 * Suc k) (t + 1) (if is_food d k then m + 1 else m)"
proof -
  from assms have lt: "4 * k < length d" "4 * k + 1 < length d" "4 * k + 2 < length d"
    "4 * k + 3 < length d"
    by simp_all
  have next_i: "4 * k + 4 = 4 * Suc k" by simp
  show ?thesis
    by (subst count_loop.simps)
      (use lt in \<open>auto simp: byte_at_def exceeds10_def sum3_def is_food_def Let_def next_i
         simp del: count_loop.simps\<close>)
qed

lemma count_loop_pixels:
  assumes "length d = 4 * n" and "k \<le> n"
  shows "count_loop d (4 * k) t m = (t + (n - k), m + length (filter (is_food d) [k..<n]))"
  using assms(2)
proof (induction "n - k" arbitrary: k t m)
  case 0
  then have "k = n" by simp
  with assms(1) show ?case by simp
next
  case (Suc j)
  then have lt: "k < n" and j: "j = n - Suc k" and le: "Suc k \<le> n" by simp_all
  have "count_loop d (4 * k) t m =
          count_loop d (4 * Suc k) (t + 1) (if is_food d k then m + 1 else m)"
    using assms(1) lt by (rule count_loop_step)
  also have "\<dots> = (t + 1 + (n - Suc k),
                    (if is_food d k then m + 1 else m) + length (filter (is_food d) [Suc k..<n]))"
    using Suc.hyps(1) [OF j le] .
  also have "\<dots> = (t + (n - k), m + length (filter (is_food d) [k..<n]))"
    using lt by (simp add: upt_conv_Cons)
  finally show ?case .
qed

lemma computeMaskPixelFraction_pixels:
  assumes "length d = 4 * n" and "0 < n"
  shows "computeMaskPixelFraction d = Some (real (food_pixels d n) / real n)"
  using count_loop_pixels [OF assms(1), of 0 0 0] assms(2)
  by (simp add: computeMaskPixelFraction_def food_pixels_def)

text \<open>
  Claim C9. On the buffer of a canvas of \<open>n > 0\<close> pixels (\<^verbatim>\<open>getImageData\<close> gives four
  bytes for each pixel and refuses an empty canvas) the meter returns the number of food
  pixels, in the sense of the two-tier rule \<open>is_food\<close>, over \<open>n\<close>. So a buffer whose
  alpha bytes are all 255 gives 1, and a buffer of zero bytes gives 0.
\<close>

theorem pixel_fraction_rule:
  assumes "length d = 4 * n" and "0 < n"
  shows "computeMaskPixelFraction d = Some (real (food_pixels d n) / real n) \<and>
         ((\<forall>p<n. d ! (4 * p + 3) = 255) \<longrightarrow> computeMaskPixelFraction d = Some 1) \<and>
         ((\<forall>i<length d. d ! i = 0) \<longrightarrow> computeMaskPixelFraction d = Some 0)"
proof (intro conjI impI)
  show frac: "computeMaskPixelFraction d = Some (real (food_pixels d n) / real n)"
    using assms by (rule computeMaskPixelFraction_pixels)
  {
    assume "\<forall>p<n. d ! (4 * p + 3) = 255"
    then have "\<forall>p \<in> set [0..<n]. is_food d p"
      by (simp add: is_food_def Let_def)
    then have "filter (is_food d) [0..<n] = [0..<n]"
      by (simp only: filter_True)
    then have "food_pixels d n = n" by (simp add: food_pixels_def)
    with frac assms(2) show "computeMaskPixelFraction d = Some 1" by simp
  }
  {
    assume z: "\<forall>i<length d. d ! i = 0"
    have "\<not> is_food d p" if "p < n" for p
    proof -
      from that assms(1) have "4 * p < length d" "4 * p + 1 < length d" "4 * p + 2 < length d"
        "4 * p + 3 < length d" by simp_all
      with z show ?thesis by (simp add: is_food_def Let_def)
    qed
    then have "filter (is_food d) [0..<n] = []"
      by (simp add: filter_empty_conv)
    then have "food_pixels d n = 0" by (simp add: food_pixels_def)
    with frac show "computeMaskPixelFraction d = Some 0" by simp
  }
qed

lemma upt4: "[0..<4] = [0, 1, 2, 3]" "[0..<2] = [0, 1]"
  by (simp_all add: upt_rec)

theorem pixel_fraction_rule_witness:
  "computeMaskPixelFraction half_mask = Some (1 / 2) \<and>
   computeMaskPixelFraction red_mask = Some 1 \<and>
   computeMaskPixelFraction clear_mask = Some 0"
proof -
  have h: "length half_mask = 4 * 4" "(0::nat) < 4"
    by (simp_all add: half_mask_def)
  have fp: "food_pixels half_mask 4 = 2"
    by (simp add: food_pixels_def upt4 is_food_def half_mask_def)
  have r: "length red_mask = 4 * 2" "(0::nat) < 2" "\<forall>p<2. red_mask ! (4 * p + 3) = 255"
    by (simp_all add: red_mask_def less_Suc_eq numeral_2_eq_2)
  have c: "length clear_mask = 4 * 2" "\<forall>i<length clear_mask. clear_mask ! i = 0"
    by (simp_all add: clear_mask_def less_Suc_eq numeral_eq_Suc nth_Cons')
  from pixel_fraction_rule [OF h]
  have "computeMaskPixelFraction half_mask = Some (real (food_pixels half_mask 4) / real 4)"
    by blast
  with fp have 1: "computeMaskPixelFraction half_mask = Some (1 / 2)" by simp
  from pixel_fraction_rule [OF r(1,2)] r(3)
  have 2: "computeMaskPixelFraction red_mask = Some 1" by blast
  from pixel_fraction_rule [OF c(1) r(2)] c(2)
  have 3: "computeMaskPixelFraction clear_mask = Some 0" by blast
  from 1 2 3 show ?thesis by blast
qed

section \<open>The density estimator: claims\<close>

lemma not_digit_dot: "\<not> is_digit CHR ''.''"
  by (simp add: is_digit_def)

lemma digits_no_dot: "digits a \<Longrightarrow> CHR ''.'' \<notin> set a"
  using not_digit_dot by (auto simp: digits_def list_all_iff)

lemma takeWhile_digits_app:
  "list_all is_digit a \<Longrightarrow> \<not> is_digit x \<Longrightarrow> takeWhile is_digit (a @ x # z) = a"
  by (induction a) auto

lemma dropWhile_digits_app:
  "list_all is_digit a \<Longrightarrow> \<not> is_digit x \<Longrightarrow> dropWhile is_digit (a @ x # z) = x # z"
  by (induction a) auto

lemma split_at_first:
  "c \<notin> set a \<Longrightarrow> takeWhile (\<lambda>x. x \<noteq> c) (a @ c # b) = a"
  "c \<notin> set a \<Longrightarrow> dropWhile (\<lambda>x. x \<noteq> c) (a @ c # b) = c # b"
  by (induction a) auto

lemma numeric_iff:
  "numeric m \<longleftrightarrow> digits m \<or> (\<exists>a b. m = a @ CHR ''.'' # b \<and> digits a \<and> digits b)"
proof
  assume "numeric m"
  then consider "digits m"
    | "digits (takeWhile (\<lambda>c. c \<noteq> CHR ''.'') m)" "dropWhile (\<lambda>c. c \<noteq> CHR ''.'') m \<noteq> []"
      "digits (tl (dropWhile (\<lambda>c. c \<noteq> CHR ''.'') m))"
    by (auto simp: numeric_def Let_def)
  then show "digits m \<or> (\<exists>a b. m = a @ CHR ''.'' # b \<and> digits a \<and> digits b)"
  proof cases
    case 1
    then show ?thesis by simp
  next
    case 2
    let ?r = "dropWhile (\<lambda>c. c \<noteq> CHR ''.'') m"
    from 2(2) have "hd ?r = CHR ''.''"
      using hd_dropWhile [of "\<lambda>c. c \<noteq> CHR ''.''" m] by simp
    with 2(2) have "?r = CHR ''.'' # tl ?r"
      by (cases ?r) simp_all
    then have "m = takeWhile (\<lambda>c. c \<noteq> CHR ''.'') m @ CHR ''.'' # tl ?r"
      by (metis takeWhile_dropWhile_id)
    with 2 show ?thesis by blast
  qed
next
  assume "digits m \<or> (\<exists>a b. m = a @ CHR ''.'' # b \<and> digits a \<and> digits b)"
  then show "numeric m"
  proof
    assume "digits m"
    then show ?thesis by (simp add: numeric_def)
  next
    assume "\<exists>a b. m = a @ CHR ''.'' # b \<and> digits a \<and> digits b"
    then obtain a b where m: "m = a @ CHR ''.'' # b" and a: "digits a" and b: "digits b"
      by blast
    from a have nd: "CHR ''.'' \<notin> set a" by (rule digits_no_dot)
    then have "takeWhile (\<lambda>c. c \<noteq> CHR ''.'') m = a"
      and "dropWhile (\<lambda>c. c \<noteq> CHR ''.'') m = CHR ''.'' # b"
      by (simp_all add: m split_at_first)
    with a b show ?thesis by (simp add: numeric_def Let_def)
  qed
qed

lemma numeric_starts_with_digit: "numeric m \<Longrightarrow> m \<noteq> [] \<and> is_digit (hd m)"
  by (auto simp: numeric_iff digits_def list_all_iff hd_append dest: hd_in_set)

lemma prefix_digits_takeWhile:
  "prefix m r \<Longrightarrow> list_all is_digit m \<Longrightarrow> prefix m (takeWhile is_digit r)"
proof (induction m arbitrary: r)
  case Nil
  show ?case by simp
next
  case (Cons x m)
  then obtain r' where "r = x # r'" "prefix m r'"
    by (cases r) auto
  with Cons show ?case by simp
qed

text \<open>A numeric prefix of a text is a prefix of what the pattern takes at its start.\<close>

lemma numeric_prefix_split:
  assumes "numeric m'" and "prefix m' r"
  shows "prefix m' (takeWhile is_digit r) \<or>
         (\<exists>b z. dropWhile is_digit r = CHR ''.'' # b @ z \<and> digits b \<and>
                m' = takeWhile is_digit r @ CHR ''.'' # b)"
proof -
  from assms(1) consider "digits m'"
    | a b where "m' = a @ CHR ''.'' # b" "digits a" "digits b"
    by (auto simp: numeric_iff)
  then show ?thesis
  proof cases
    case 1
    with assms(2) show ?thesis
      by (simp add: digits_def prefix_digits_takeWhile)
  next
    case 2
    from assms(2) 2(1) obtain z where r: "r = a @ CHR ''.'' # (b @ z)"
      by (auto simp: prefix_def)
    from 2(2) have la: "list_all is_digit a" by (simp add: digits_def)
    from la not_digit_dot have "takeWhile is_digit r = a"
      unfolding r by (rule takeWhile_digits_app)
    moreover from la not_digit_dot have "dropWhile is_digit r = CHR ''.'' # (b @ z)"
      unfolding r by (rule dropWhile_digits_app)
    ultimately show ?thesis using 2 by blast
  qed
qed

lemma regex_match_cases:
  "(regex_match out = None \<and> (\<forall>c \<in> set out. \<not> is_digit c)) \<or>
   (\<exists>pre m post. out = pre @ m @ post \<and> regex_match out = Some m \<and>
      (\<forall>c \<in> set pre. \<not> is_digit c) \<and> numeric m \<and>
      (\<forall>m'. numeric m' \<and> prefix m' (m @ post) \<longrightarrow> prefix m' m))"
proof -
  let ?pre = "takeWhile (\<lambda>c. \<not> is_digit c) out"
  let ?r = "dropWhile (\<lambda>c. \<not> is_digit c) out"
  have out: "out = ?pre @ ?r" by simp
  have pre: "\<forall>c \<in> set ?pre. \<not> is_digit c"
    by (auto dest: set_takeWhileD)
  show ?thesis
  proof (cases ?r)
    case Nil
    then have nodigit: "\<forall>c \<in> set out. \<not> is_digit c"
      by (simp add: dropWhile_eq_Nil_conv)
    have "regex_match out = None"
      unfolding regex_match_def Nil by simp
    with nodigit show ?thesis by simp
  next
    case (Cons c cs)
    let ?whole = "takeWhile is_digit ?r"
    let ?rest = "dropWhile is_digit ?r"
    have c: "is_digit c"
      using hd_dropWhile [of "\<lambda>c. \<not> is_digit c" out] Cons by simp
    then have whole: "digits ?whole"
      by (auto simp: digits_def Cons list_all_iff dest: set_takeWhileD)
    have r: "?r = ?whole @ ?rest" by simp
    show ?thesis
    proof (cases "\<exists>y ys. ?rest = CHR ''.'' # y # ys \<and> is_digit y")
      case True
      then obtain y ys where rest: "?rest = CHR ''.'' # y # ys" and y: "is_digit y"
        by blast
      let ?f = "takeWhile is_digit (y # ys)"
      let ?post = "dropWhile is_digit (y # ys)"
      let ?m = "?whole @ CHR ''.'' # ?f"
      have f: "digits ?f"
        using y by (auto simp: digits_def list_all_iff dest: set_takeWhileD)
      have m: "regex_match out = Some ?m"
        using Cons rest y by (simp add: regex_match_def Let_def)
      have "?r = ?m @ ?post"
        using r rest by (metis append.assoc append_Cons takeWhile_dropWhile_id)
      with out have split: "out = ?pre @ ?m @ ?post" by metis
      have num: "numeric ?m"
        using whole f by (auto simp: numeric_iff)
      have longest: "prefix m' ?m" if "numeric m'" "prefix m' (?m @ ?post)" for m'
      proof -
        from that(2) \<open>?r = ?m @ ?post\<close> have "prefix m' ?r" by simp
        from numeric_prefix_split [OF that(1) this]
        show ?thesis
        proof
          assume "prefix m' ?whole"
          then show ?thesis by (rule prefix_prefix)
        next
          assume "\<exists>b z. ?rest = CHR ''.'' # b @ z \<and> digits b \<and> m' = ?whole @ CHR ''.'' # b"
          then obtain b z where b: "?rest = CHR ''.'' # b @ z" "digits b"
            "m' = ?whole @ CHR ''.'' # b"
            by blast
          from b(1) rest have "prefix b (y # ys)" by (simp add: prefix_def)
          moreover from b(2) have "list_all is_digit b" by (simp add: digits_def)
          ultimately have "prefix b ?f"
            by (rule prefix_digits_takeWhile)
          with b(3) show ?thesis by simp
        qed
      qed
      from split m pre num longest show ?thesis by blast
    next
      case False
      have m: "regex_match out = Some ?whole"
      proof (cases ?rest)
        case Nil
        with Cons show ?thesis by (simp add: regex_match_def Let_def)
      next
        case rc: (Cons x xs)
        show ?thesis
        proof (cases xs)
          case Nil
          with Cons rc show ?thesis by (simp add: regex_match_def Let_def)
        next
          case xc: (Cons y ys)
          with False rc have "\<not> (x = CHR ''.'' \<and> is_digit y)" by simp
          with Cons rc xc show ?thesis by (auto simp: regex_match_def Let_def)
        qed
      qed
      from out r have split: "out = ?pre @ ?whole @ ?rest" by metis
      have num: "numeric ?whole"
        using whole by (simp add: numeric_iff)
      have longest: "prefix m' ?whole" if "numeric m'" "prefix m' (?whole @ ?rest)" for m'
      proof -
        from that(2) have "prefix m' ?r" by simp
        from numeric_prefix_split [OF that(1) this]
        show ?thesis
        proof
          assume "prefix m' ?whole"
          then show ?thesis .
        next
          assume "\<exists>b z. ?rest = CHR ''.'' # b @ z \<and> digits b \<and> m' = ?whole @ CHR ''.'' # b"
          then obtain b z where b: "?rest = CHR ''.'' # b @ z" "digits b"
            by blast
          from b(2) obtain y b' where "b = y # b'" "is_digit y"
            by (cases b) (auto simp: digits_def)
          with b(1) have "\<exists>y ys. ?rest = CHR ''.'' # y # ys \<and> is_digit y" by simp
          with False show ?thesis by contradiction
        qed
      qed
      from split m pre num longest show ?thesis by blast
    qed
  qed
qed

lemma numeric_substring_digit:
  assumes "\<exists>pre m post. out = pre @ m @ post \<and> numeric m"
  shows "\<exists>c \<in> set out. is_digit c"
proof -
  from assms obtain pre m post where out: "out = pre @ m @ post" and num: "numeric m"
    by blast
  from num have "m \<noteq> []" "is_digit (hd m)"
    by (simp_all add: numeric_starts_with_digit)
  then have "hd m \<in> set out" by (simp add: out)
  with \<open>is_digit (hd m)\<close> show ?thesis by blast
qed

lemma numeric_not_earlier:
  assumes "pre @ r = pre' @ m' @ post'" and "\<forall>c \<in> set pre. \<not> is_digit c" and "numeric m'"
  shows "length pre \<le> length pre'"
proof (rule ccontr)
  assume "\<not> length pre \<le> length pre'"
  then have lt: "length pre' < length pre" by simp
  from assms(3) have m': "m' \<noteq> []" "is_digit (hd m')"
    by (simp_all add: numeric_starts_with_digit)
  have "(pre @ r) ! length pre' = pre ! length pre'"
    using lt by (simp add: nth_append)
  moreover have "(pre' @ m' @ post') ! length pre' = hd m'"
    using m'(1) by (simp add: nth_append hd_conv_nth)
  ultimately have "hd m' = pre ! length pre'"
    using assms(1) by simp
  with lt have "hd m' \<in> set pre" by simp
  with assms(2) m'(2) show False by blast
qed

lemma parseFloat_digits:
  assumes "digits a"
  shows "parseFloat a = real (decimal a)"
proof -
  from assms have dw: "dropWhile is_digit a = []"
    by (simp add: digits_def list_all_iff)
  show ?thesis unfolding parseFloat_def dw by simp
qed

lemma parseFloat_decimal:
  assumes "digits a" and "digits b"
  shows "parseFloat (a @ CHR ''.'' # b) = real (decimal a) + real (decimal b) / 10 ^ length b"
proof -
  from assms(1) have la: "list_all is_digit a" by (simp add: digits_def)
  from la not_digit_dot have "takeWhile is_digit (a @ CHR ''.'' # b) = a"
    by (rule takeWhile_digits_app)
  moreover from la not_digit_dot have "dropWhile is_digit (a @ CHR ''.'' # b) = CHR ''.'' # b"
    by (rule dropWhile_digits_app)
  ultimately show ?thesis by (simp add: parseFloat_def)
qed

text \<open>
  Claim C8. When the text has no substring that is an integer or a decimal, the parsing
  step gives the fallback 1.0. When it has one, the step gives the value of the first:
  no numeric substring starts further left, and of those that start at the same place it
  is the longest. \<^verbatim>\<open>parseFloat\<close> reads such a substring as its decimal value. The two
  replies of the specification parse to 0.95 and to 1.0. The step is a total function of
  the text: there is no text on which it raises an error.
\<close>

theorem density_from_text_first_number:
  "((\<nexists>pre m post. out = pre @ m @ post \<and> numeric m) \<longrightarrow> density_from_text out = 1.0) \<and>
   ((\<exists>pre m post. out = pre @ m @ post \<and> numeric m) \<longrightarrow>
      (\<exists>pre m post. out = pre @ m @ post \<and> numeric m \<and>
         (\<forall>pre' m' post'. out = pre' @ m' @ post' \<and> numeric m' \<longrightarrow>
            length pre \<le> length pre' \<and> (length pre' = length pre \<longrightarrow> prefix m' m)) \<and>
         density_from_text out = parseFloat m)) \<and>
   (digits a \<longrightarrow> parseFloat a = real (decimal a)) \<and>
   (digits a \<and> digits b \<longrightarrow>
      parseFloat (a @ CHR ''.'' # b) = real (decimal a) + real (decimal b) / 10 ^ length b) \<and>
   density_from_text ''The density is about 0.95 g/ml.'' = 0.95 \<and>
   density_from_text ''I cannot estimate this.'' = 1.0"
proof (intro conjI impI)
  assume none: "\<nexists>pre m post. out = pre @ m @ post \<and> numeric m"
  from regex_match_cases [of out] none have "regex_match out = None" by blast
  then show "density_from_text out = 1.0" by (simp add: density_from_text_def)
next
  assume "\<exists>pre m post. out = pre @ m @ post \<and> numeric m"
  then have "\<exists>c \<in> set out. is_digit c" by (rule numeric_substring_digit)
  with regex_match_cases [of out] obtain pre m post
    where split: "out = pre @ m @ post" and m: "regex_match out = Some m"
      and pre: "\<forall>c \<in> set pre. \<not> is_digit c" and num: "numeric m"
      and longest: "\<forall>m'. numeric m' \<and> prefix m' (m @ post) \<longrightarrow> prefix m' m"
    by blast
  have first: "length pre \<le> length pre' \<and> (length pre' = length pre \<longrightarrow> prefix m' m)"
    if "out = pre' @ m' @ post'" "numeric m'" for pre' m' post'
  proof
    from that(1) split have eq: "pre @ (m @ post) = pre' @ m' @ post'" by simp
    from numeric_not_earlier [OF eq pre that(2)] show "length pre \<le> length pre'" .
    show "length pre' = length pre \<longrightarrow> prefix m' m"
    proof
      assume "length pre' = length pre"
      with eq have "m @ post = m' @ post'" by simp
      then have "prefix m' (m @ post)" by simp
      with that(2) longest show "prefix m' m" by blast
    qed
  qed
  have "density_from_text out = parseFloat m"
    using m by (simp add: density_from_text_def)
  with split num first
  show "\<exists>pre m post. out = pre @ m @ post \<and> numeric m \<and>
         (\<forall>pre' m' post'. out = pre' @ m' @ post' \<and> numeric m' \<longrightarrow>
            length pre \<le> length pre' \<and> (length pre' = length pre \<longrightarrow> prefix m' m)) \<and>
         density_from_text out = parseFloat m"
    by blast
next
  assume "digits a"
  then show "parseFloat a = real (decimal a)" by (rule parseFloat_digits)
next
  assume "digits a \<and> digits b"
  then show "parseFloat (a @ CHR ''.'' # b) = real (decimal a) + real (decimal b) / 10 ^ length b"
    by (simp add: parseFloat_decimal)
next
  show "density_from_text ''The density is about 0.95 g/ml.'' = 0.95"
    by (simp add: density_from_text_def regex_match_def is_digit_def parseFloat_def decimal_def
        digit_value_def)
  show "density_from_text ''I cannot estimate this.'' = 1.0"
    by (simp add: density_from_text_def regex_match_def is_digit_def)
qed

theorem density_from_text_first_number_witness:
  "density_from_text ''n/a'' = 1.0 \<and>
   (\<exists>m. numeric m \<and> density_from_text ''about 12 or 7.5'' = parseFloat m) \<and>
   parseFloat ''12'' = 12 \<and> parseFloat ''7.5'' = 7.5"
proof -
  have "\<nexists>pre m post. ''n/a'' = pre @ m @ post \<and> numeric m"
  proof
    assume "\<exists>pre m post. ''n/a'' = pre @ m @ post \<and> numeric m"
    then have "\<exists>c \<in> set ''n/a''. is_digit c" by (rule numeric_substring_digit)
    then show False by (simp add: is_digit_def)
  qed
  with density_from_text_first_number [of "''n/a''"]
  have 1: "density_from_text ''n/a'' = 1.0" by blast
  have "''about 12 or 7.5'' = ''about '' @ ''12'' @ '' or 7.5'' \<and> numeric ''12''"
    by (simp add: numeric_def digits_def is_digit_def)
  then have "\<exists>pre m post. ''about 12 or 7.5'' = pre @ m @ post \<and> numeric m" by blast
  with density_from_text_first_number [of "''about 12 or 7.5''"]
  have 2: "\<exists>m. numeric m \<and> density_from_text ''about 12 or 7.5'' = parseFloat m" by blast
  have d: "digits ''12''" "digits ''7''" "digits ''5''"
    by (simp_all add: digits_def is_digit_def)
  from density_from_text_first_number [of _ "''12''"] d(1)
  have "parseFloat ''12'' = real (decimal ''12'')" by blast
  then have 3: "parseFloat ''12'' = 12" by (simp add: decimal_def digit_value_def)
  from density_from_text_first_number [of _ "''7''" "''5''"] d(2,3)
  have "parseFloat (''7'' @ CHR ''.'' # ''5'') = real (decimal ''7'') + real (decimal ''5'') / 10 ^ length ''5''"
    by blast
  then have 4: "parseFloat ''7.5'' = 7.5" by (simp add: decimal_def digit_value_def)
  from 1 2 3 4 show ?thesis by blast
qed

end
